theory Spec2Isabelle
  imports Main
begin

text \<open>
  The community routes of the restaurant server: voting on posts, role administration,
  comment editing, registration, and the geocoded restaurant upsert. The repository holds
  several variants of \<^verbatim>\<open>server.js\<close>; where a route differs between them, each variant
  is a definition of its own.

  A handler is embedded as the sequence of statements it awaits on the one database
  connection. The store is a record of tables, each a list of rows; \<open>exec\<close> gives the
  effect of a statement; \<open>run\<close> serves a handler alone, with at most one statement
  rejected; \<open>interleave\<close> and \<open>interleave_faults\<close> serve several handlers whose
  statements alternate.
\<close>

section \<open>HTTP values\<close>

text \<open>
  The handlers of \<^verbatim>\<open>server.js\<close> answer with \<^verbatim>\<open>res.status(c).json(v)\<close> or
  \<^verbatim>\<open>res.status(c).send(text)\<close>; \<^verbatim>\<open>res.json(v)\<close> alone answers with status 200.
  JSON objects keep their fields in the order the source writes them.
\<close>

datatype json =
    JUndefined
  | JNull
  | JBool bool
  | JNum int
  | JStr string
  | JObj "(string \<times> json) list"

datatype payload = Json json | Text string

record response =
  status :: int
  payload :: payload

definition res_json :: "int \<Rightarrow> json \<Rightarrow> response" where
  "res_json c v = \<lparr>status = c, payload = Json v\<rparr>"

definition res_send :: "int \<Rightarrow> string \<Rightarrow> response" where
  "res_send c s = \<lparr>status = c, payload = Text s\<rparr>"

definition message :: "string \<Rightarrow> json" where
  "message m = JObj [(''message'', JStr m)]"

text \<open>
  The request fields the modelled handlers read. A body field is \<open>None\<close> when the JSON
  body does not have it; the fields are taken at the JSON type the handlers expect.
\<close>

record request =
  authorization :: "string option"
  params_id :: string
  body_role :: "string option"
  body_text :: "string option"
  body_username :: "string option"
  body_password :: "string option"
  body_name :: "string option"
  body_address :: "string option"
  body_flags :: "bool option list"

text \<open>The payload of a verified token, stored by the middleware in \<^verbatim>\<open>req.user\<close>.\<close>

record claims =
  userId :: int
  token_username :: "string option"
  token_role :: string

section \<open>The relational store\<close>

record post_row =
  post_id :: int
  upvotes :: int
  downvotes :: int

record vote_row =
  vote_user_id :: int
  vote_post_id :: int
  vote_type :: int

record user_row =
  user_id :: int
  username :: string
  password_hash :: "string option"
  role :: string

record comment_row =
  comment_id :: int
  comment_post_id :: int
  author_id :: int
  comment_text :: string

text \<open>
  Columns the modelled handlers neither read nor write (titles, contents, timestamps, the
  profile fields of a user) are left out of the rows.
  \<^verbatim>\<open>parseFloat\<close> is floating point; a coordinate is kept as the text it is applied to.
\<close>

datatype float = ParseFloat string

record restaurant_row =
  restaurant_id :: int
  restaurant_name :: "string option"
  flags :: "bool option list"
  si_do :: string
  si_gun_gu :: string
  eup_myeon_dong :: string
  postal_code :: string
  road_name_col :: string
  full_address :: "string option"
  geom :: "float \<times> float"

record tables =
  posts :: "post_row list"
  post_votes :: "vote_row list"
  users :: "user_row list"
  comments :: "comment_row list"
  restaurants :: "restaurant_row list"
  users_id_seq :: int
  restaurants_id_seq :: int

text \<open>
  The server holds one \<^verbatim>\<open>pg\<close> connection (\<^verbatim>\<open>client\<close>). \<open>cur\<close> is what a statement on
  that connection reads and writes; \<open>txn\<close> is the snapshot taken by \<^verbatim>\<open>BEGIN\<close>, to
  which \<^verbatim>\<open>ROLLBACK\<close> returns, and is \<open>None\<close> outside a transaction.
\<close>

record db =
  cur :: tables
  txn :: "tables option"

text \<open>One constructor for each SQL text the modelled handlers send, with its parameters.\<close>

datatype stmt =
    Begin
  | Commit
  | Rollback
  | SelectPost int
  | SelectVoteType int int
  | InsertVote int int int
  | UpdateVoteType int int int
  | UpdateUpvotes int int
  | UpdateDownvotes int int
  | UpdateUpvotesDownvotes int int int
  | IncrementUpvotes string
  | IncrementDownvotes string
  | SelectUser string
  | UpdateUserRole string string
  | SetRoleModerator string
  | SoftDeleteUser string
  | InsertUser string string string
  | SelectCommentAuthor string
  | UpdateCommentText string string
  | UpsertRestaurant restaurant_row

datatype result =
    Command
  | PostRows "post_row list"
  | VoteTypeRows "int list"
  | UserRows "user_row list"
  | CommentRows "comment_row list"
  | IdRows "int list"

datatype pg_error = QueryError

fun post_rows :: "result \<Rightarrow> post_row list" where
  "post_rows (PostRows ps) = ps"
| "post_rows _ = []"

fun vote_type_rows :: "result \<Rightarrow> int list" where
  "vote_type_rows (VoteTypeRows vs) = vs"
| "vote_type_rows _ = []"

fun user_rows :: "result \<Rightarrow> user_row list" where
  "user_rows (UserRows us) = us"
| "user_rows _ = []"

fun comment_rows :: "result \<Rightarrow> comment_row list" where
  "comment_rows (CommentRows cs) = cs"
| "comment_rows _ = []"

fun id_rows :: "result \<Rightarrow> int list" where
  "id_rows (IdRows is) = is"
| "id_rows _ = []"

subsection \<open>Integer parameters\<close>

definition is_space :: "char \<Rightarrow> bool" where
  "is_space c = (c \<in> set [CHR '' '', CHR 0x09, CHR 0x0A, CHR 0x0B, CHR 0x0C, CHR 0x0D])"

definition is_digit :: "char \<Rightarrow> bool" where
  "is_digit c = (c \<in> set ''0123456789'')"

definition digits_val :: "string \<Rightarrow> int" where
  "digits_val ds = foldl (\<lambda>a c. 10 * a + (of_char c - 48)) 0 ds"

definition split_sign :: "string \<Rightarrow> bool \<times> string" where
  "split_sign s =
     (case s of
        [] \<Rightarrow> (False, [])
      | c # r \<Rightarrow> if c = CHR ''-'' then (True, r) else if c = CHR ''+'' then (False, r) else (False, s))"

definition int4 :: "int \<Rightarrow> bool" where
  "int4 i = (- 2147483648 \<le> i \<and> i \<le> 2147483647)"

text \<open>
  How the store reads a text parameter compared with a \<^verbatim>\<open>SERIAL\<close> key: blanks around an
  optionally signed run of digits, within 32 bits; anything else makes the query fail.
\<close>

definition sql_integer :: "string \<Rightarrow> int option" where
  "sql_integer s =
     (let t = rev (dropWhile is_space (rev (dropWhile is_space s)));
          neg = fst (split_sign t);
          ds = snd (split_sign t);
          v = (if neg then - digits_val ds else digits_val ds)
      in if ds \<noteq> [] \<and> list_all is_digit ds \<and> int4 v then Some v else None)"

text \<open>
  \<^verbatim>\<open>parseInt(s, 10)\<close>: leading blanks, an optional sign, then the longest run of digits;
  \<open>None\<close> is \<^verbatim>\<open>NaN\<close>. The value is the exact integer.
\<close>

definition parseInt :: "string \<Rightarrow> int option" where
  "parseInt s =
     (let t = dropWhile is_space s;
          neg = fst (split_sign t);
          ds = takeWhile is_digit (snd (split_sign t))
      in if ds = [] then None
         else Some (if neg then - digits_val ds else digits_val ds))"

subsection \<open>Executing one statement\<close>

definition with_tables :: "db \<Rightarrow> tables \<Rightarrow> db" where
  "with_tables d t = d\<lparr>cur := t\<rparr>"

definition by_key :: "string \<Rightarrow> db \<Rightarrow> (int \<Rightarrow> (pg_error + result) \<times> db) \<Rightarrow> (pg_error + result) \<times> db" where
  "by_key s d f = (case sql_integer s of None \<Rightarrow> (Inl QueryError, d) | Some i \<Rightarrow> f i)"

definition by_int :: "int \<Rightarrow> db \<Rightarrow> (pg_error + result) \<times> db \<Rightarrow> (pg_error + result) \<times> db" where
  "by_int i d r = (if int4 i then r else (Inl QueryError, d))"

definition update_posts :: "int \<Rightarrow> (post_row \<Rightarrow> post_row) \<Rightarrow> tables \<Rightarrow> tables" where
  "update_posts pid f t = t\<lparr>posts := map (\<lambda>p. if post_id p = pid then f p else p) (posts t)\<rparr>"

definition update_users :: "int \<Rightarrow> (user_row \<Rightarrow> user_row) \<Rightarrow> tables \<Rightarrow> tables" where
  "update_users uid f t = t\<lparr>users := map (\<lambda>u. if user_id u = uid then f u else u) (users t)\<rparr>"

definition matching_users :: "int \<Rightarrow> tables \<Rightarrow> user_row list" where
  "matching_users uid t = filter (\<lambda>u. user_id u = uid) (users t)"

definition matching_posts :: "int \<Rightarrow> tables \<Rightarrow> post_row list" where
  "matching_posts pid t = filter (\<lambda>p. post_id p = pid) (posts t)"

definition matching_votes :: "int \<Rightarrow> int \<Rightarrow> tables \<Rightarrow> vote_row list" where
  "matching_votes uid pid t =
     filter (\<lambda>v. vote_user_id v = uid \<and> vote_post_id v = pid) (post_votes t)"

definition insert_vote :: "int \<Rightarrow> int \<Rightarrow> int \<Rightarrow> tables \<Rightarrow> tables" where
  "insert_vote uid pid vt t =
     t\<lparr>post_votes := post_votes t @ [\<lparr>vote_user_id = uid, vote_post_id = pid, vote_type = vt\<rparr>]\<rparr>"

definition set_vote_type :: "int \<Rightarrow> int \<Rightarrow> int \<Rightarrow> tables \<Rightarrow> tables" where
  "set_vote_type vt uid pid t =
     t\<lparr>post_votes :=
        map (\<lambda>v. if vote_user_id v = uid \<and> vote_post_id v = pid then v\<lparr>vote_type := vt\<rparr> else v)
          (post_votes t)\<rparr>"

definition matching_comments :: "int \<Rightarrow> tables \<Rightarrow> comment_row list" where
  "matching_comments cid t = filter (\<lambda>c. comment_id c = cid) (comments t)"

definition set_comment_text :: "string \<Rightarrow> int \<Rightarrow> tables \<Rightarrow> tables" where
  "set_comment_text tx cid t =
     t\<lparr>comments := map (\<lambda>c. if comment_id c = cid then c\<lparr>comment_text := tx\<rparr> else c) (comments t)\<rparr>"

definition insert_user :: "user_row \<Rightarrow> tables \<Rightarrow> tables" where
  "insert_user u t = t\<lparr>users := users t @ [u], users_id_seq := users_id_seq t + 1\<rparr>"

definition same_name :: "string option \<Rightarrow> restaurant_row \<Rightarrow> bool" where
  "same_name n r = (n \<noteq> None \<and> restaurant_name r = n)"

fun exec :: "stmt \<Rightarrow> db \<Rightarrow> (pg_error + result) \<times> db" where
  "exec Begin d =
     (Inr Command, (case txn d of None \<Rightarrow> d\<lparr>txn := Some (cur d)\<rparr> | Some s \<Rightarrow> d))"
| "exec Commit d = (Inr Command, d\<lparr>txn := None\<rparr>)"
| "exec Rollback d =
     (Inr Command, (case txn d of None \<Rightarrow> d | Some s \<Rightarrow> \<lparr>cur = s, txn = None\<rparr>))"
| "exec (SelectPost pid) d =
     by_int pid d (Inr (PostRows (matching_posts pid (cur d))), d)"
| "exec (SelectVoteType uid pid) d =
     by_int uid d (by_int pid d
       (Inr (VoteTypeRows (map vote_type (matching_votes uid pid (cur d)))), d))"
| "exec (InsertVote uid pid vt) d =
     by_int uid d (by_int pid d
       (Inr Command, with_tables d (insert_vote uid pid vt (cur d))))"
| "exec (UpdateVoteType vt uid pid) d =
     by_int uid d (by_int pid d
       (Inr Command, with_tables d (set_vote_type vt uid pid (cur d))))"
| "exec (UpdateUpvotes n pid) d =
     by_int pid d (Inr Command, with_tables d (update_posts pid (\<lambda>p. p\<lparr>upvotes := n\<rparr>) (cur d)))"
| "exec (UpdateDownvotes n pid) d =
     by_int pid d (Inr Command, with_tables d (update_posts pid (\<lambda>p. p\<lparr>downvotes := n\<rparr>) (cur d)))"
| "exec (UpdateUpvotesDownvotes n m pid) d =
     by_int pid d
       (Inr Command, with_tables d (update_posts pid (\<lambda>p. p\<lparr>upvotes := n, downvotes := m\<rparr>) (cur d)))"
| "exec (IncrementUpvotes s) d =
     by_key s d (\<lambda>pid.
       let t = update_posts pid (\<lambda>p. p\<lparr>upvotes := upvotes p + 1\<rparr>) (cur d)
       in (Inr (PostRows (matching_posts pid t)), with_tables d t))"
| "exec (IncrementDownvotes s) d =
     by_key s d (\<lambda>pid.
       let t = update_posts pid (\<lambda>p. p\<lparr>downvotes := downvotes p + 1\<rparr>) (cur d)
       in (Inr (PostRows (matching_posts pid t)), with_tables d t))"
| "exec (SelectUser s) d =
     by_key s d (\<lambda>uid. (Inr (UserRows (matching_users uid (cur d))), d))"
| "exec (UpdateUserRole s r) d =
     by_key s d (\<lambda>uid.
       let t = update_users uid (\<lambda>u. u\<lparr>role := r\<rparr>) (cur d)
       in (Inr (UserRows (matching_users uid t)), with_tables d t))"
| "exec (SetRoleModerator s) d =
     by_key s d (\<lambda>uid.
       let t = update_users uid (\<lambda>u. u\<lparr>role := ''moderator''\<rparr>) (cur d)
       in (Inr (UserRows (matching_users uid t)), with_tables d t))"
| "exec (SoftDeleteUser s) d =
     by_key s d (\<lambda>uid.
       let t = update_users uid
                 (\<lambda>u. u\<lparr>username := ''[DELETED USER]'', password_hash := None, role := ''deleted''\<rparr>) (cur d)
       in (Inr (UserRows (matching_users uid t)), with_tables d t))"
| "exec (InsertUser un ph r) d =
     (let u = \<lparr>user_id = users_id_seq (cur d), username = un, password_hash = Some ph, role = r\<rparr>
      in (Inr (UserRows [u]), with_tables d (insert_user u (cur d))))"
| "exec (SelectCommentAuthor s) d =
     by_key s d (\<lambda>cid. (Inr (CommentRows (matching_comments cid (cur d))), d))"
| "exec (UpdateCommentText tx s) d =
     by_key s d (\<lambda>cid.
       let t = set_comment_text tx cid (cur d)
       in (Inr (CommentRows (matching_comments cid t)), with_tables d t))"
| "exec (UpsertRestaurant v) d =
     (let t = cur d; n = restaurants_id_seq t
      in if filter (same_name (restaurant_name v)) (restaurants t) \<noteq> []
         then (Inr (IdRows (map restaurant_id (filter (same_name (restaurant_name v)) (restaurants t)))),
               with_tables d (t\<lparr>restaurants :=
                  map (\<lambda>r. if same_name (restaurant_name v) r then v\<lparr>restaurant_id := restaurant_id r\<rparr> else r)
                    (restaurants t),
                  restaurants_id_seq := n + 1\<rparr>))
         else (Inr (IdRows [n]),
               with_tables d (t\<lparr>restaurants := restaurants t @ [v\<lparr>restaurant_id := n\<rparr>],
                  restaurants_id_seq := n + 1\<rparr>)))"

section \<open>Handlers as sequences of awaited queries\<close>

text \<open>
  A handler is an \<^verbatim>\<open>async\<close> function: it runs to its next \<^verbatim>\<open>await client.query(...)\<close>,
  and resumes with the rows or with the rejection. \<open>Query s k\<close> is the handler suspended on
  statement \<open>s\<close> with \<open>k\<close> the rest of its body; \<open>Done r\<close> is the handler after it has
  answered \<open>r\<close>.
\<close>

datatype 'a prog = Done 'a | Query stmt "pg_error + result \<Rightarrow> 'a prog"

text \<open>
  An awaited query inside \<^verbatim>\<open>try { ... } catch (err) { ... }\<close>: a rejection continues in
  the \<^verbatim>\<open>catch\<close> block \<open>c\<close>, rows continue in the rest of the \<^verbatim>\<open>try\<close> block.
\<close>

definition await :: "stmt \<Rightarrow> 'a prog \<Rightarrow> (result \<Rightarrow> 'a prog) \<Rightarrow> 'a prog" where
  "await s c k = Query s (\<lambda>r. case r of Inl e \<Rightarrow> c | Inr v \<Rightarrow> k v)"

text \<open>
  A handler running alone. \<open>fault = Some n\<close> lets \<open>n\<close> statements through and makes the
  store reject the next one, which then has no effect; \<open>None\<close> is a store that rejects
  only what \<open>exec\<close> rejects.
\<close>

primrec run :: "'a prog \<Rightarrow> nat option \<Rightarrow> db \<Rightarrow> 'a \<times> db" where
  "run (Done a) fault d = (a, d)"
| "run (Query s k) fault d =
     (case fault of
        None \<Rightarrow> (case exec s d of (r, d') \<Rightarrow> run (k r) None d')
      | Some n \<Rightarrow>
          (case n of
             0 \<Rightarrow> run (k (Inl QueryError)) None d
           | Suc m \<Rightarrow> (case exec s d of (r, d') \<Rightarrow> run (k r) (Some m) d')))"


section \<open>Authentication\<close>

text \<open>\<^verbatim>\<open>s.split(' ')\<close>: the pieces of \<open>s\<close> between single spaces.\<close>

fun split_space :: "string \<Rightarrow> string list" where
  "split_space [] = [[]]"
| "split_space (c # cs) =
     (if c = CHR '' '' then [] # split_space cs
      else (case split_space cs of [] \<Rightarrow> [[c]] | w # ws \<Rightarrow> (c # w) # ws))"

text \<open>
  \<^verbatim>\<open>authMiddleware\<close>. \<^verbatim>\<open>jwt.verify\<close> is an opaque primitive: \<open>jwt_verify\<close> gives the
  payload of a token it accepts and \<open>None\<close> where it throws. \<open>Inr decoded\<close> stands for
  \<^verbatim>\<open>req.user = decoded; next()\<close>.
\<close>

definition authMiddleware :: "(string \<Rightarrow> claims option) \<Rightarrow> request \<Rightarrow> response + claims" where
  "authMiddleware jwt_verify req =
     (case authorization req of
        None \<Rightarrow> Inl (res_send 401 ''No token'')
      | Some authHeader \<Rightarrow>
          if authHeader = [] then Inl (res_send 401 ''No token'')
          else (case drop 1 (split_space authHeader) of
                  [] \<Rightarrow> Inl (res_send 401 ''Invalid token'')
                | token # _ \<Rightarrow>
                    (case jwt_verify token of
                       None \<Rightarrow> Inl (res_send 401 ''Invalid token'')
                     | Some decoded \<Rightarrow> Inr decoded)))"

definition authenticated ::
  "(string \<Rightarrow> claims option) \<Rightarrow> request \<Rightarrow> (claims \<Rightarrow> response prog) \<Rightarrow> response prog" where
  "authenticated jwt_verify req handler =
     (case authMiddleware jwt_verify req of Inl r \<Rightarrow> Done r | Inr user \<Rightarrow> handler user)"

section \<open>Voting, with the vote ledger\<close>

text \<open>The \<^verbatim>\<open>catch\<close> block of both vote handlers.\<close>

definition vote_catch :: "response prog" where
  "vote_catch = Query Rollback (\<lambda>_. Done (res_json 500 (message ''Internal server error'')))"

text \<open>\<^verbatim>\<open>POST /api/community/posts/:id/upvote\<close> behind \<^verbatim>\<open>authMiddleware\<close>.\<close>

definition upvote :: "request \<Rightarrow> claims \<Rightarrow> response prog" where
  "upvote req user =
     (case parseInt (params_id req) of
        None \<Rightarrow> Done (res_json 400 (message ''Invalid post ID''))
      | Some postId \<Rightarrow>
          if postId = 0 then Done (res_json 400 (message ''Invalid post ID''))
          else
            await (SelectPost postId) vote_catch (\<lambda>postCheck.
            case post_rows postCheck of
              [] \<Rightarrow> Done (res_json 404 (message ''Post not found''))
            | post # _ \<Rightarrow>
                await (SelectVoteType (userId user) postId) vote_catch (\<lambda>voteCheck.
                case vote_type_rows voteCheck of
                  [] \<Rightarrow>
                    await Begin vote_catch (\<lambda>_.
                    await (InsertVote (userId user) postId 1) vote_catch (\<lambda>_.
                    let newUpvotes = upvotes post + 1 in
                    await (UpdateUpvotes newUpvotes postId) vote_catch (\<lambda>_.
                    await Commit vote_catch (\<lambda>_.
                    Done (res_json 200 (JObj [(''success'', JBool True),
                      (''upvotes'', JNum newUpvotes), (''message'', JStr ''Upvoted!'')]))))))
                | existingVote # _ \<Rightarrow>
                    if existingVote = 1
                    then Done (res_json 200 (JObj [(''success'', JBool False),
                           (''message'', JStr ''Already upvoted this post.'')]))
                    else
                      await Begin vote_catch (\<lambda>_.
                      await (UpdateVoteType 1 (userId user) postId) vote_catch (\<lambda>_.
                      let newUpvotes = upvotes post + 1; newDownvotes = downvotes post - 1 in
                      await (UpdateUpvotesDownvotes newUpvotes newDownvotes postId) vote_catch (\<lambda>_.
                      await Commit vote_catch (\<lambda>_.
                      Done (res_json 200 (JObj [(''success'', JBool True),
                        (''upvotes'', JNum newUpvotes), (''downvotes'', JNum newDownvotes),
                        (''message'', JStr ''Changed vote to upvote.'')])))))))))"

text \<open>\<^verbatim>\<open>POST /api/community/posts/:id/downvote\<close> behind \<^verbatim>\<open>authMiddleware\<close>.\<close>

definition downvote :: "request \<Rightarrow> claims \<Rightarrow> response prog" where
  "downvote req user =
     (case parseInt (params_id req) of
        None \<Rightarrow> Done (res_json 400 (message ''Invalid post ID''))
      | Some postId \<Rightarrow>
          if postId = 0 then Done (res_json 400 (message ''Invalid post ID''))
          else
            await (SelectPost postId) vote_catch (\<lambda>postCheck.
            case post_rows postCheck of
              [] \<Rightarrow> Done (res_json 404 (message ''Post not found''))
            | post # _ \<Rightarrow>
                await (SelectVoteType (userId user) postId) vote_catch (\<lambda>voteCheck.
                case vote_type_rows voteCheck of
                  [] \<Rightarrow>
                    await Begin vote_catch (\<lambda>_.
                    await (InsertVote (userId user) postId (- 1)) vote_catch (\<lambda>_.
                    let newDownvotes = downvotes post + 1 in
                    await (UpdateDownvotes newDownvotes postId) vote_catch (\<lambda>_.
                    await Commit vote_catch (\<lambda>_.
                    Done (res_json 200 (JObj [(''success'', JBool True),
                      (''downvotes'', JNum newDownvotes), (''message'', JStr ''Downvoted!'')]))))))
                | existingVote # _ \<Rightarrow>
                    if existingVote = - 1
                    then Done (res_json 200 (JObj [(''success'', JBool False),
                           (''message'', JStr ''Already downvoted this post.'')]))
                    else
                      await Begin vote_catch (\<lambda>_.
                      await (UpdateVoteType (- 1) (userId user) postId) vote_catch (\<lambda>_.
                      let newUpvotes = upvotes post - 1; newDownvotes = downvotes post + 1 in
                      await (UpdateUpvotesDownvotes newUpvotes newDownvotes postId) vote_catch (\<lambda>_.
                      await Commit vote_catch (\<lambda>_.
                      Done (res_json 200 (JObj [(''success'', JBool True),
                        (''upvotes'', JNum newUpvotes), (''downvotes'', JNum newDownvotes),
                        (''message'', JStr ''Changed vote to downvote.'')])))))))))"

definition upvote_route :: "(string \<Rightarrow> claims option) \<Rightarrow> request \<Rightarrow> response prog" where
  "upvote_route jwt_verify req = authenticated jwt_verify req (upvote req)"

definition downvote_route :: "(string \<Rightarrow> claims option) \<Rightarrow> request \<Rightarrow> response prog" where
  "downvote_route jwt_verify req = authenticated jwt_verify req (downvote req)"

section \<open>Voting, counters only\<close>

text \<open>
  The variant of the server without a vote ledger:
  \<^verbatim>\<open>POST /api/community/posts/:id/upvote\<close> and \<^verbatim>\<open>.../downvote\<close> as single
  \<^verbatim>\<open>UPDATE ... SET upvotes = upvotes + 1 ... RETURNING upvotes\<close> statements, with no
  middleware in front.
\<close>

definition internal_error :: "response prog" where
  "internal_error = Done (res_json 500 (message ''Internal server error''))"

definition upvote_counter_only :: "request \<Rightarrow> response prog" where
  "upvote_counter_only req =
     await (IncrementUpvotes (params_id req)) internal_error (\<lambda>result.
     case post_rows result of
       [] \<Rightarrow> Done (res_json 404 (message ''Post not found''))
     | row # _ \<Rightarrow> Done (res_json 200 (JObj [(''upvotes'', JNum (upvotes row))])))"

definition downvote_counter_only :: "request \<Rightarrow> response prog" where
  "downvote_counter_only req =
     await (IncrementDownvotes (params_id req)) internal_error (\<lambda>result.
     case post_rows result of
       [] \<Rightarrow> Done (res_json 404 (message ''Post not found''))
     | row # _ \<Rightarrow> Done (res_json 200 (JObj [(''downvotes'', JNum (downvotes row))])))"

section \<open>Role administration\<close>

text \<open>The row that \<^verbatim>\<open>RETURNING id, username, role\<close> gives, as JSON.\<close>

definition user_json :: "user_row \<Rightarrow> json" where
  "user_json u =
     JObj [(''id'', JNum (user_id u)), (''username'', JStr (username u)), (''role'', JStr (role u))]"

text \<open>
  \<^verbatim>\<open>res.json({ success: true, <key>: rows[0] })\<close>; a field whose value is
  \<^verbatim>\<open>undefined\<close> is not serialised.
\<close>

definition success_with :: "string \<Rightarrow> user_row list \<Rightarrow> response" where
  "success_with key rows =
     (case rows of
        [] \<Rightarrow> res_json 200 (JObj [(''success'', JBool True)])
      | u # _ \<Rightarrow> res_json 200 (JObj [(''success'', JBool True), (key, user_json u)]))"

text \<open>\<^verbatim>\<open>PUT /api/users/:id/role\<close> behind \<^verbatim>\<open>authMiddleware\<close>.\<close>

definition put_user_role :: "request \<Rightarrow> claims \<Rightarrow> response prog" where
  "put_user_role req user =
     (let id = params_id req in
      case body_role req of
        None \<Rightarrow> Done (res_json 400 (message ''Invalid role''))
      | Some newRole \<Rightarrow>
          if newRole \<notin> set [''user'', ''moderator'', ''admin'']
          then Done (res_json 400 (message ''Invalid role''))
          else
            await (SelectUser id) internal_error (\<lambda>findRes.
            case user_rows findRes of
              [] \<Rightarrow> Done (res_json 404 (message ''User not found''))
            | targetUser # _ \<Rightarrow>
                let actingRole = token_role user;
                    perform_update =
                      await (UpdateUserRole id newRole) internal_error (\<lambda>updateRes.
                      Done (success_with ''updatedUser'' (user_rows updateRes)))
                in
                  if actingRole = ''admin'' then perform_update
                  else if actingRole = ''moderator'' then
                    if newRole \<noteq> ''moderator''
                    then Done (res_json 403
                           (message ''Forbidden: moderator can only set role=moderator''))
                    else if role targetUser = ''admin''
                    then Done (res_json 403 (message ''Forbidden: cannot modify an admin's role''))
                    else perform_update
                  else Done (res_json 403
                         (message ''Forbidden: you do not have permission to change roles''))))"

text \<open>\<^verbatim>\<open>POST /api/users/:id/promoteToModerator\<close> behind \<^verbatim>\<open>authMiddleware\<close>.\<close>

definition promoteToModerator :: "request \<Rightarrow> claims \<Rightarrow> response prog" where
  "promoteToModerator req user =
     (if token_role user \<noteq> ''admin'' \<and> token_role user \<noteq> ''moderator''
      then Done (res_json 403 (message ''Forbidden: only mods or admins''))
      else
        let id = params_id req in
        await (SelectUser id) internal_error (\<lambda>findRes.
        case user_rows findRes of
          [] \<Rightarrow> Done (res_json 404 (message ''User not found''))
        | targetUser # _ \<Rightarrow>
            if role targetUser = ''admin''
            then Done (res_json 403 (message ''Cannot promote an admin to moderator''))
            else
              await (SetRoleModerator id) internal_error (\<lambda>updateRes.
              Done (success_with ''updatedUser'' (user_rows updateRes)))))"

text \<open>\<^verbatim>\<open>DELETE /api/users/:id\<close> behind \<^verbatim>\<open>authMiddleware\<close>: the soft delete.\<close>

definition delete_user :: "request \<Rightarrow> claims \<Rightarrow> response prog" where
  "delete_user req user =
     (let id = params_id req in
      if token_role user \<noteq> ''admin'' \<and> token_role user \<noteq> ''moderator''
      then Done (res_json 403 (message ''Forbidden: only admin or moderator can delete users''))
      else
        await (SelectUser id) internal_error (\<lambda>findRes.
        case user_rows findRes of
          [] \<Rightarrow> Done (res_json 404 (message ''User not found''))
        | targetUser # _ \<Rightarrow>
            if token_role user = ''moderator'' \<and> role targetUser = ''admin''
            then Done (res_json 403 (message ''Forbidden: cannot delete an admin as a moderator''))
            else
              await (SoftDeleteUser id) internal_error (\<lambda>updateRes.
              Done (success_with ''user'' (user_rows updateRes)))))"

definition put_user_role_route :: "(string \<Rightarrow> claims option) \<Rightarrow> request \<Rightarrow> response prog" where
  "put_user_role_route jwt_verify req = authenticated jwt_verify req (put_user_role req)"

definition promoteToModerator_route :: "(string \<Rightarrow> claims option) \<Rightarrow> request \<Rightarrow> response prog" where
  "promoteToModerator_route jwt_verify req = authenticated jwt_verify req (promoteToModerator req)"

definition delete_user_route :: "(string \<Rightarrow> claims option) \<Rightarrow> request \<Rightarrow> response prog" where
  "delete_user_route jwt_verify req = authenticated jwt_verify req (delete_user req)"

section \<open>Editing a comment\<close>

definition comment_json :: "comment_row \<Rightarrow> json" where
  "comment_json c =
     JObj [(''id'', JNum (comment_id c)), (''post_id'', JNum (comment_post_id c)),
           (''author_id'', JNum (author_id c)), (''text'', JStr (comment_text c))]"

text \<open>\<^verbatim>\<open>res.json(result.rows[0])\<close>.\<close>

definition first_comment :: "comment_row list \<Rightarrow> response" where
  "first_comment rows =
     (case rows of [] \<Rightarrow> res_json 200 JUndefined | c # _ \<Rightarrow> res_json 200 (comment_json c))"

text \<open>
  \<^verbatim>\<open>PUT /api/community/comments/:id\<close> behind \<^verbatim>\<open>authMiddleware\<close>: only the author of
  the comment may edit it. \<^verbatim>\<open>!text\<close> holds of a missing field and of the empty string.
\<close>

definition put_comment :: "request \<Rightarrow> claims \<Rightarrow> response prog" where
  "put_comment req user =
     (let id = params_id req in
      case body_text req of
        None \<Rightarrow> Done (res_json 400 (message ''Missing text field''))
      | Some text \<Rightarrow>
          if text = [] then Done (res_json 400 (message ''Missing text field''))
          else
            await (SelectCommentAuthor id) internal_error (\<lambda>checkRes.
            case comment_rows checkRes of
              [] \<Rightarrow> Done (res_json 404 (message ''Comment not found''))
            | comment # _ \<Rightarrow>
                let isAuthor = (author_id comment = userId user) in
                if \<not> isAuthor
                then Done (res_json 403 (message ''Forbidden: only the author can edit''))
                else
                  await (UpdateCommentText text id) internal_error (\<lambda>result.
                  Done (first_comment (comment_rows result)))))"

definition put_comment_route :: "(string \<Rightarrow> claims option) \<Rightarrow> request \<Rightarrow> response prog" where
  "put_comment_route jwt_verify req = authenticated jwt_verify req (put_comment req)"

text \<open>
  \<^verbatim>\<open>PUT /api/community/comments/:id\<close> of the variant of the server whose community routes
  have no middleware in front: the update is sent at once.
\<close>

definition put_comment_open :: "request \<Rightarrow> response prog" where
  "put_comment_open req =
     (let id = params_id req in
      case body_text req of
        None \<Rightarrow> Done (res_json 400 (message ''Missing text field''))
      | Some text \<Rightarrow>
          if text = [] then Done (res_json 400 (message ''Missing text field''))
          else
            await (UpdateCommentText text id) internal_error (\<lambda>result.
            case comment_rows result of
              [] \<Rightarrow> Done (res_json 404 (message ''Comment not found or no changes made''))
            | c # _ \<Rightarrow> Done (res_json 200 (comment_json c))))"

section \<open>Registration\<close>

text \<open>\<^verbatim>\<open>x || d\<close> for a string field that may be missing: \<open>d\<close> when \<open>x\<close> is missing or empty.\<close>

definition or_default :: "string option \<Rightarrow> string \<Rightarrow> string" where
  "or_default x d = (case x of None \<Rightarrow> d | Some s \<Rightarrow> if s = [] then d else s)"

text \<open>\<^verbatim>\<open>res.status(500).send("Internal server error")\<close>, the \<^verbatim>\<open>catch\<close> of the auth routes.\<close>

definition register_catch :: "response prog" where
  "register_catch = Done (res_send 500 ''Internal server error'')"

text \<open>
  \<^verbatim>\<open>POST /api/auth/register\<close>, the variant that signs a token at once. No middleware is
  in front of it. \<^verbatim>\<open>bcrypt.hash\<close> and \<^verbatim>\<open>jwt.sign\<close> are opaque primitives.
\<close>

definition register_token ::
  "(string \<Rightarrow> string) \<Rightarrow> (claims \<Rightarrow> string) \<Rightarrow> request \<Rightarrow> response prog" where
  "register_token bcrypt_hash jwt_sign req =
     (case (body_username req, body_password req) of
        (Some uname, Some password) \<Rightarrow>
          if uname = [] \<or> password = []
          then Done (res_send 400 ''Missing username or password'')
          else
            let password_hash = bcrypt_hash password in
            await (InsertUser uname password_hash (or_default (body_role req) ''user''))
              register_catch (\<lambda>result.
            case user_rows result of
              [] \<Rightarrow> register_catch
            | user # _ \<Rightarrow>
                let token = jwt_sign \<lparr>userId = user_id user, token_username = Some (username user),
                                      token_role = role user\<rparr>
                in Done (res_json 200 (JObj [(''token'', JStr token), (''user'', user_json user)])))
      | _ \<Rightarrow> Done (res_send 400 ''Missing username or password''))"

text \<open>\<^verbatim>\<open>POST /api/auth/register\<close>, the variant that answers with the new row.\<close>

definition register_plain :: "(string \<Rightarrow> string) \<Rightarrow> request \<Rightarrow> response prog" where
  "register_plain bcrypt_hash req =
     (case (body_username req, body_password req) of
        (Some uname, Some password) \<Rightarrow>
          if uname = [] \<or> password = []
          then Done (res_send 400 ''Missing username or password'')
          else
            let password_hash = bcrypt_hash password in
            await (InsertUser uname password_hash (or_default (body_role req) ''user''))
              register_catch (\<lambda>result.
            case user_rows result of
              [] \<Rightarrow> Done (res_json 200 JUndefined)
            | user # _ \<Rightarrow> Done (res_json 200 (user_json user)))
      | _ \<Rightarrow> Done (res_send 400 ''Missing username or password''))"

section \<open>Registering a restaurant\<close>

text \<open>One document of the geocoder's answer, with the fields \<^verbatim>\<open>parseKakaoDoc\<close> reads.\<close>

record kakao_road_address =
  road_region_1depth_name :: string
  road_region_2depth_name :: string
  road_region_3depth_name :: string
  zone_no :: string
  road_name :: string
  main_building_no :: "string option"
  road_x :: string
  road_y :: string

record kakao_address =
  region_1depth_name :: string
  region_2depth_name :: string
  region_3depth_name :: string
  addr_x :: string
  addr_y :: string

record kakao_doc =
  road_address :: "kakao_road_address option"
  doc_address :: "kakao_address option"

record parsed_doc =
  siDo :: string
  siGunGu :: string
  eupMyeonDong :: string
  postalCode :: string
  roadName :: string
  lon :: float
  lat :: float

datatype js_error = TypeError | RequestFailed

text \<open>
  \<^verbatim>\<open>parseKakaoDoc\<close>. With neither a road address nor an address, reading
  \<^verbatim>\<open>addr.region_1depth_name\<close> throws.
\<close>

definition parseKakaoDoc :: "kakao_doc \<Rightarrow> js_error + parsed_doc" where
  "parseKakaoDoc doc =
     (case road_address doc of
        Some road \<Rightarrow>
          Inr \<lparr>siDo = road_region_1depth_name road,
               siGunGu = road_region_2depth_name road,
               eupMyeonDong = road_region_3depth_name road,
               postalCode = zone_no road,
               roadName = road_name road @ '' '' @ or_default (main_building_no road) [],
               lon = ParseFloat (road_x road),
               lat = ParseFloat (road_y road)\<rparr>
      | None \<Rightarrow>
          (case doc_address doc of
             None \<Rightarrow> Inl TypeError
           | Some addr \<Rightarrow>
               Inr \<lparr>siDo = region_1depth_name addr,
                    siGunGu = region_2depth_name addr,
                    eupMyeonDong = region_3depth_name addr,
                    postalCode = [],
                    roadName = [],
                    lon = ParseFloat (addr_x addr),
                    lat = ParseFloat (addr_y addr)\<rparr>))"

text \<open>
  \<^verbatim>\<open>POST /api/restaurants\<close>, the same text in every variant of the server. \<open>axios_get\<close>
  is the geocoder: from the submitted address to \<^verbatim>\<open>response.data.documents\<close>, which may
  be missing, or to the failure of the request.
\<close>

definition post_restaurants ::
  "(string option \<Rightarrow> js_error + kakao_doc list option) \<Rightarrow> request \<Rightarrow> response prog" where
  "post_restaurants axios_get req =
     (case axios_get (body_address req) of
        Inl err \<Rightarrow> internal_error
      | Inr None \<Rightarrow> Done (res_json 400 (message ''Kakao: No results for that address''))
      | Inr (Some []) \<Rightarrow> Done (res_json 400 (message ''Kakao: No results for that address''))
      | Inr (Some (doc # _)) \<Rightarrow>
          (case parseKakaoDoc doc of
             Inl err \<Rightarrow> internal_error
           | Inr parsed \<Rightarrow>
               await (UpsertRestaurant
                        \<lparr>restaurant_id = 0, restaurant_name = body_name req, flags = body_flags req,
                         si_do = siDo parsed, si_gun_gu = siGunGu parsed,
                         eup_myeon_dong = eupMyeonDong parsed, postal_code = postalCode parsed,
                         road_name_col = roadName parsed, full_address = body_address req,
                         geom = (lon parsed, lat parsed)\<rparr>)
                 internal_error (\<lambda>upsertRes.
               case id_rows upsertRes of
                 [] \<Rightarrow> internal_error
               | newId # _ \<Rightarrow>
                   Done (res_json 200 (JObj [(''success'', JBool True), (''id'', JNum newId)])))))"

section \<open>Requests in flight together\<close>

text \<open>
  Node runs one handler at a time and switches handlers only at an \<^verbatim>\<open>await\<close>; the one
  connection executes the statements in the order they are sent. \<open>step\<close> executes the
  statement a suspended handler waits on and runs the handler to its next \<^verbatim>\<open>await\<close>.
  \<open>interleave\<close> follows a schedule: the handler to step next, by its position.
\<close>

fun step :: "'a prog \<Rightarrow> db \<Rightarrow> 'a prog \<times> db" where
  "step (Done a) d = (Done a, d)"
| "step (Query s k) d = (case exec s d of (r, d') \<Rightarrow> (k r, d'))"

fun interleave :: "nat list \<Rightarrow> 'a prog list \<Rightarrow> db \<Rightarrow> 'a prog list \<times> db" where
  "interleave [] ps d = (ps, d)"
| "interleave (i # sched) ps d =
     (if i < length ps
      then (case step (ps ! i) d of (p, d') \<Rightarrow> interleave sched (ps[i := p]) d')
      else interleave sched ps d)"

text \<open>
  The same with rejections: a schedule entry \<open>(i, True)\<close> makes the store reject the
  statement that handler \<open>i\<close> waits on, which then has no effect, and the handler resumes
  with the rejection.
\<close>

fun step_rejected :: "'a prog \<Rightarrow> 'a prog" where
  "step_rejected (Done a) = Done a"
| "step_rejected (Query s k) = k (Inl QueryError)"

fun interleave_faults :: "(nat \<times> bool) list \<Rightarrow> 'a prog list \<Rightarrow> db \<Rightarrow> 'a prog list \<times> db" where
  "interleave_faults [] ps d = (ps, d)"
| "interleave_faults ((i, fails) # sched) ps d =
     (if i < length ps
      then (if fails then interleave_faults sched (ps[i := step_rejected (ps ! i)]) d
            else (case step (ps ! i) d of (p, d') \<Rightarrow> interleave_faults sched (ps[i := p]) d'))
      else interleave_faults sched ps d)"

section \<open>Storage failures\<close>

text \<open>
  Whether a statement of the handler is rejected in the run that \<open>run\<close> describes, by the
  injected fault or by the store itself.
\<close>

primrec rejected :: "'a prog \<Rightarrow> nat option \<Rightarrow> db \<Rightarrow> bool" where
  "rejected (Done a) fault d = False"
| "rejected (Query s k) fault d =
     (case fault of
        None \<Rightarrow> (case exec s d of (r, d') \<Rightarrow> isl r \<or> rejected (k r) None d')
      | Some n \<Rightarrow>
          (case n of
             0 \<Rightarrow> True
           | Suc m \<Rightarrow> (case exec s d of (r, d') \<Rightarrow> isl r \<or> rejected (k r) (Some m) d')))"

section \<open>Concrete inputs\<close>

text \<open>
  A verifier that accepts four tokens: two plain users, a moderator and an administrator
  are enough to exercise every branch of the handlers.
\<close>

definition claims_of :: "int \<Rightarrow> string \<Rightarrow> claims" where
  "claims_of i r = \<lparr>userId = i, token_username = None, token_role = r\<rparr>"

definition verify_example :: "string \<Rightarrow> claims option" where
  "verify_example t =
     (if t = ''alice'' then Some (claims_of 10 ''user'')
      else if t = ''bob'' then Some (claims_of 20 ''user'')
      else if t = ''mod'' then Some (claims_of 30 ''moderator'')
      else if t = ''root'' then Some (claims_of 40 ''admin'')
      else None)"

definition request_of :: "string option \<Rightarrow> string \<Rightarrow> request" where
  "request_of auth i =
     \<lparr>authorization = auth, params_id = i, body_role = None, body_text = None,
      body_username = None, body_password = None, body_name = None, body_address = None,
      body_flags = []\<rparr>"

definition empty_tables :: tables where
  "empty_tables =
     \<lparr>posts = [], post_votes = [], users = [], comments = [], restaurants = [],
      users_id_seq = 1, restaurants_id_seq = 1\<rparr>"

text \<open>One post, number 1, that nobody has voted on.\<close>

definition fresh_post_db :: db where
  "fresh_post_db =
     \<lparr>cur = empty_tables\<lparr>posts := [\<lparr>post_id = 1, upvotes = 0, downvotes = 0\<rparr>]\<rparr>, txn = None\<rparr>"

text \<open>The same post after the user with id 10 has upvoted it.\<close>

definition upvoted_post_db :: db where
  "upvoted_post_db =
     \<lparr>cur = empty_tables\<lparr>posts := [\<lparr>post_id = 1, upvotes = 1, downvotes = 0\<rparr>],
        post_votes := [\<lparr>vote_user_id = 10, vote_post_id = 1, vote_type = 1\<rparr>]\<rparr>, txn = None\<rparr>"

text \<open>Two posts, numbers 1 and 2, that nobody has voted on.\<close>

definition two_posts_db :: db where
  "two_posts_db =
     \<lparr>cur = empty_tables\<lparr>posts := [\<lparr>post_id = 1, upvotes = 0, downvotes = 0\<rparr>,
                                    \<lparr>post_id = 2, upvotes = 0, downvotes = 0\<rparr>]\<rparr>,
      txn = None\<rparr>"

text \<open>
  Three accounts, one of each role, and one comment, number 5, written by the plain user.
\<close>

definition staff_db :: db where
  "staff_db =
     \<lparr>cur = empty_tables\<lparr>users :=
        [\<lparr>user_id = 10, username = ''alice'', password_hash = Some ''h1'', role = ''user''\<rparr>,
         \<lparr>user_id = 30, username = ''mod'', password_hash = Some ''h3'', role = ''moderator''\<rparr>,
         \<lparr>user_id = 40, username = ''root'', password_hash = Some ''h4'', role = ''admin''\<rparr>],
        comments :=
          [\<lparr>comment_id = 5, comment_post_id = 1, author_id = 10, comment_text = ''first''\<rparr>],
        users_id_seq := 41\<rparr>,
      txn = None\<rparr>"

text \<open>Stand-ins for the opaque primitives, and a geocoder that finds nothing.\<close>

definition hash_example :: "string \<Rightarrow> string" where
  "hash_example password = ''#'' @ password"

definition sign_example :: "claims \<Rightarrow> string" where
  "sign_example c = ''token of '' @ token_role c"

definition no_documents :: "string option \<Rightarrow> js_error + kakao_doc list option" where
  "no_documents a = Inr (Some [])"

section \<open>Sessions and invariants\<close>

text \<open>The two vote routes of the ledger variant, by the direction they ask for.\<close>

datatype intent = UP | DOWN

definition vote_route :: "(string \<Rightarrow> claims option) \<Rightarrow> intent \<Rightarrow> request \<Rightarrow> response prog" where
  "vote_route jwt_verify i req =
     (case i of UP \<Rightarrow> upvote_route jwt_verify req | DOWN \<Rightarrow> downvote_route jwt_verify req)"

text \<open>
  Vote calls served one after another, each with its own fault: the answers in order, and
  the store after the last call.
\<close>

fun vote_session ::
  "(string \<Rightarrow> claims option) \<Rightarrow> (intent \<times> request \<times> nat option) list \<Rightarrow> db \<Rightarrow> response list \<times> db" where
  "vote_session jwt_verify [] d = ([], d)"
| "vote_session jwt_verify ((i, req, fault) # calls) d =
     (case run (vote_route jwt_verify i req) fault d of
        (r, d') \<Rightarrow> (case vote_session jwt_verify calls d' of (rs, d'') \<Rightarrow> (r # rs, d'')))"

text \<open>
  What \<^verbatim>\<open>voteCheck.rows[0].vote_type\<close> is for a user and a post: the direction of the
  user's ledger entry, \<open>None\<close> when the user has no entry for the post.
\<close>

definition ledger_entry :: "tables \<Rightarrow> int \<Rightarrow> int \<Rightarrow> int option" where
  "ledger_entry t uid pid =
     (case matching_votes uid pid t of [] \<Rightarrow> None | v # _ \<Rightarrow> Some (vote_type v))"

text \<open>The number of ledger rows for a post with a given direction.\<close>

definition count_votes :: "tables \<Rightarrow> int \<Rightarrow> int \<Rightarrow> int" where
  "count_votes t pid vt =
     int (length (filter (\<lambda>v. vote_post_id v = pid \<and> vote_type v = vt) (post_votes t)))"

text \<open>Ledger/Counter consistency: every post's counters are the counts of its ledger rows.\<close>

definition counters_match_ledger :: "tables \<Rightarrow> bool" where
  "counters_match_ledger t =
     (\<forall>p \<in> set (posts t).
        upvotes p = count_votes t (post_id p) 1 \<and> downvotes p = count_votes t (post_id p) (- 1))"

text \<open>The ledger has at most one row for a user and a post, and every direction is +1 or -1.\<close>

definition ledger_keyed :: "tables \<Rightarrow> bool" where
  "ledger_keyed t =
     (distinct (map (\<lambda>v. (vote_user_id v, vote_post_id v)) (post_votes t)) \<and>
      (\<forall>v \<in> set (post_votes t). vote_type v = 1 \<or> vote_type v = - 1))"

definition store_ok :: "db \<Rightarrow> bool" where
  "store_ok d = (txn d = None \<and> counters_match_ledger (cur d) \<and> ledger_keyed (cur d))"

section \<open>Running handlers\<close>

lemma run_await:
  "run (await s c k) fault d =
     (case fault of
        None \<Rightarrow> (case exec s d of (Inl e, d') \<Rightarrow> run c None d' | (Inr v, d') \<Rightarrow> run (k v) None d')
      | Some 0 \<Rightarrow> run c None d
      | Some (Suc m) \<Rightarrow>
          (case exec s d of (Inl e, d') \<Rightarrow> run c (Some m) d' | (Inr v, d') \<Rightarrow> run (k v) (Some m) d'))"
  by (simp add: await_def split: option.splits nat.splits sum.splits prod.splits)

lemma rejected_await:
  "rejected (await s c k) fault d =
     (case fault of
        None \<Rightarrow> (case exec s d of (Inl e, d') \<Rightarrow> True | (Inr v, d') \<Rightarrow> rejected (k v) None d')
      | Some 0 \<Rightarrow> True
      | Some (Suc m) \<Rightarrow>
          (case exec s d of (Inl e, d') \<Rightarrow> True | (Inr v, d') \<Rightarrow> rejected (k v) (Some m) d'))"
  by (simp add: await_def split: option.splits nat.splits sum.splits prod.splits)

lemma run_vote_catch:
  "run vote_catch fault d =
     (res_json 500 (message ''Internal server error''),
      if fault = Some 0 then d else (case txn d of None \<Rightarrow> d | Some s \<Rightarrow> \<lparr>cur = s, txn = None\<rparr>))"
  by (simp add: vote_catch_def split: option.splits nat.splits)

lemma run_internal_error [simp]:
  "run internal_error fault d = (res_json 500 (message ''Internal server error''), d)"
  by (simp add: internal_error_def)

lemma run_register_catch [simp]:
  "run register_catch fault d = (res_send 500 ''Internal server error'', d)"
  by (simp add: register_catch_def)

text \<open>A vote handler sends at most six statements, so these are all the faults to tell apart.\<close>

lemma fault_cases:
  obtains "fault = None" | "fault = Some 0" | "fault = Some (Suc 0)" | "fault = Some (Suc (Suc 0))"
    | "fault = Some (Suc (Suc (Suc 0)))"
    | "fault = Some (Suc (Suc (Suc (Suc 0))))" | "fault = Some (Suc (Suc (Suc (Suc (Suc 0)))))"
    | m where "fault = Some (Suc (Suc (Suc (Suc (Suc (Suc m))))))"
proof (cases fault)
  case None
  then show ?thesis using that by blast
next
  case (Some n)
  then show ?thesis using that by (metis not0_implies_Suc)
qed

lemmas vote_route_defs = vote_route_def upvote_route_def downvote_route_def authenticated_def
  upvote_def downvote_def by_int_def

lemmas user_route_defs = put_user_role_route_def promoteToModerator_route_def
  delete_user_route_def put_comment_route_def authenticated_def put_user_role_def
  promoteToModerator_def delete_user_def put_comment_def put_comment_open_def by_key_def

lemmas run_simps = run_await rejected_await run_vote_catch with_tables_def Let_def

lemmas run_splits = list.split sum.split option.split if_split

lemmas example_defs = verify_example_def claims_of_def request_of_def empty_tables_def
  fresh_post_db_def upvoted_post_db_def authMiddleware_def parseInt_def sql_integer_def
  is_space_def is_digit_def split_sign_def digits_val_def int4_def by_key_def
  matching_posts_def matching_votes_def matching_users_def ledger_entry_def res_json_def
  res_send_def message_def update_posts_def update_users_def insert_vote_def set_vote_type_def
  staff_db_def two_posts_db_def matching_comments_def set_comment_text_def insert_user_def hash_example_def
  sign_example_def no_documents_def success_with_def user_json_def comment_json_def
  first_comment_def

section \<open>The vote ledger\<close>

text \<open>
  C4. A user whose ledger entry for an existing post is already +1 upvotes that post again:
  the answer is \<^verbatim>\<open>{success: false, message: 'Already upvoted this post.'}\<close> and the store,
  so both counters and the ledger entry, is exactly as before.
\<close>

theorem upvote_already_upvoted:
  assumes "authMiddleware jwt_verify req = Inr user"
    and "parseInt (params_id req) = Some postId" and "postId \<noteq> 0"
    and "int4 postId" and "int4 (userId user)"
    and "matching_posts postId (cur d) \<noteq> []"
    and "ledger_entry (cur d) (userId user) postId = Some 1"
  shows "run (upvote_route jwt_verify req) None d =
           (res_json 200 (JObj [(''success'', JBool False),
              (''message'', JStr ''Already upvoted this post.'')]), d)"
  using assms
  by (auto simp: vote_route_defs run_simps ledger_entry_def split: list.splits)

theorem upvote_already_upvoted_witness:
  "authMiddleware verify_example (request_of (Some ''Bearer alice'') ''1'') = Inr (claims_of 10 ''user'')
   \<and> parseInt ''1'' = Some 1 \<and> int4 1 \<and> int4 10
   \<and> matching_posts 1 (cur upvoted_post_db) \<noteq> []
   \<and> ledger_entry (cur upvoted_post_db) 10 1 = Some 1
   \<and> run (upvote_route verify_example (request_of (Some ''Bearer alice'') ''1'')) None upvoted_post_db =
       (res_json 200 (JObj [(''success'', JBool False),
          (''message'', JStr ''Already upvoted this post.'')]), upvoted_post_db)"
proof -
  let ?req = "request_of (Some ''Bearer alice'') ''1''"
  let ?user = "claims_of 10 ''user''"
  have a: "authMiddleware verify_example ?req = Inr ?user"
    by (simp add: example_defs)
  have p: "parseInt (params_id ?req) = Some 1"
    by (simp add: example_defs)
  have i: "int4 1" "int4 (userId ?user)"
    by (simp_all add: int4_def claims_of_def)
  have m: "matching_posts 1 (cur upvoted_post_db) \<noteq> []"
    by (simp add: example_defs)
  have l: "ledger_entry (cur upvoted_post_db) (userId ?user) 1 = Some 1"
    by (simp add: example_defs)
  from upvote_already_upvoted [OF a p _ i m l] a p i m l show ?thesis
    by (simp add: request_of_def claims_of_def)
qed

subsection \<open>Counting ledger rows\<close>

lemma count_insert:
  "count_votes (insert_vote uid pid vt t) q w =
     count_votes t q w + (if q = pid \<and> w = vt then 1 else 0)"
  by (simp add: count_votes_def insert_vote_def)

lemma count_update_posts [simp]: "count_votes (update_posts pid f t) q w = count_votes t q w"
  by (simp add: count_votes_def update_posts_def)

lemma matching_posts_hd:
  assumes "matching_posts pid t = post # ps"
  shows "post \<in> set (posts t) \<and> post_id post = pid"
proof -
  from assms have "post \<in> set (filter (\<lambda>p. post_id p = pid) (posts t))"
    by (simp add: matching_posts_def)
  then show ?thesis by simp
qed

lemma flip_other:
  "q \<noteq> pid \<Longrightarrow>
   length (filter (\<lambda>v. vote_post_id v = q \<and> vote_type v = w)
     (map (\<lambda>v. if vote_user_id v = uid \<and> vote_post_id v = pid then v\<lparr>vote_type := vt\<rparr> else v) vs)) =
   length (filter (\<lambda>v. vote_post_id v = q \<and> vote_type v = w) vs)"
  by (induction vs) auto

lemma flip_none:
  "\<forall>v \<in> set vs. \<not> (vote_user_id v = uid \<and> vote_post_id v = pid) \<Longrightarrow>
   map (\<lambda>v. if vote_user_id v = uid \<and> vote_post_id v = pid then v\<lparr>vote_type := vt\<rparr> else v) vs = vs"
  by (induction vs) auto

text \<open>
  Flipping the one row of a user and a post moves one row of that post from the old
  direction to the new one.
\<close>

lemma flip_count:
  assumes "distinct (map (\<lambda>v. (vote_user_id v, vote_post_id v)) vs)"
    and "filter (\<lambda>v. vote_user_id v = uid \<and> vote_post_id v = pid) vs = z # zs"
    and "vote_type z = old" and "old \<noteq> new"
  shows "length (filter (\<lambda>v. vote_post_id v = pid \<and> vote_type v = new)
           (map (\<lambda>v. if vote_user_id v = uid \<and> vote_post_id v = pid then v\<lparr>vote_type := new\<rparr> else v) vs))
         = Suc (length (filter (\<lambda>v. vote_post_id v = pid \<and> vote_type v = new) vs))
       \<and> Suc (length (filter (\<lambda>v. vote_post_id v = pid \<and> vote_type v = old)
           (map (\<lambda>v. if vote_user_id v = uid \<and> vote_post_id v = pid then v\<lparr>vote_type := new\<rparr> else v) vs)))
         = length (filter (\<lambda>v. vote_post_id v = pid \<and> vote_type v = old) vs)"
  using assms
proof (induction vs)
  case Nil
  then show ?case by simp
next
  case (Cons v vs)
  show ?case
  proof (cases "vote_user_id v = uid \<and> vote_post_id v = pid")
    case True
    with Cons.prems have z: "z = v" by simp
    from True Cons.prems(1)
    have "\<forall>w \<in> set vs. \<not> (vote_user_id w = uid \<and> vote_post_id w = pid)"
      by (auto simp: image_iff)
    then have "map (\<lambda>v. if vote_user_id v = uid \<and> vote_post_id v = pid
                         then v\<lparr>vote_type := new\<rparr> else v) vs = vs"
      by (rule flip_none)
    with True z Cons.prems(3,4) show ?thesis by simp
  next
    case False
    with Cons.prems
    have "filter (\<lambda>v. vote_user_id v = uid \<and> vote_post_id v = pid) vs = z # zs"
      by simp
    from Cons.IH [OF _ this Cons.prems(3,4)] Cons.prems(1) False Cons.prems(4)
    show ?thesis by auto
  qed
qed

lemma count_flip:
  assumes "ledger_keyed t" and "map vote_type (matching_votes uid pid t) = old # es"
    and "old \<noteq> new" and "w = old \<or> w = new"
  shows "count_votes (set_vote_type new uid pid t) q w =
           (if q = pid \<and> w = new then count_votes t q w + 1
            else if q = pid \<and> w = old then count_votes t q w - 1
            else count_votes t q w)"
proof -
  from assms(2) obtain z zs where z: "matching_votes uid pid t = z # zs" "vote_type z = old"
    by (auto simp: map_eq_Cons_conv)
  from assms(1) have d: "distinct (map (\<lambda>v. (vote_user_id v, vote_post_id v)) (post_votes t))"
    by (simp add: ledger_keyed_def)
  from z(1)
  have f: "filter (\<lambda>v. vote_user_id v = uid \<and> vote_post_id v = pid) (post_votes t) = z # zs"
    by (simp add: matching_votes_def)
  note fc = flip_count [OF d f z(2) assms(3)]
  show ?thesis
  proof (cases "q = pid")
    case False
    then show ?thesis
      using flip_other [of q pid w uid new "post_votes t"]
      by (simp add: count_votes_def set_vote_type_def)
  next
    case True
    with fc assms(3,4) show ?thesis
      by (auto simp: count_votes_def set_vote_type_def)
  qed
qed

subsection \<open>Each write of the vote handlers keeps the invariant\<close>

lemma matching_votes_keyed:
  assumes "ledger_keyed t" and "matching_votes uid pid t = z # zs"
  shows "vote_type z = 1 \<or> vote_type z = - 1"
proof -
  from assms(2)
  have "z \<in> set (filter (\<lambda>v. vote_user_id v = uid \<and> vote_post_id v = pid) (post_votes t))"
    by (simp add: matching_votes_def)
  then have "z \<in> set (post_votes t)" by simp
  with assms(1) show ?thesis by (simp add: ledger_keyed_def)
qed

lemma keyed_insert:
  assumes "ledger_keyed t" and "matching_votes uid pid t = []" and "vt = 1 \<or> vt = - 1"
  shows "ledger_keyed (update_posts q f (insert_vote uid pid vt t))"
proof -
  from assms(2)
  have "\<forall>v \<in> set (post_votes t). \<not> (vote_user_id v = uid \<and> vote_post_id v = pid)"
    by (simp add: matching_votes_def filter_empty_conv)
  with assms(1,3) show ?thesis
    by (auto simp: ledger_keyed_def update_posts_def insert_vote_def)
qed

lemma keyed_flip:
  assumes "ledger_keyed t" and "vt = 1 \<or> vt = - 1"
  shows "ledger_keyed (update_posts q f (set_vote_type vt uid pid t))"
proof -
  have "map (\<lambda>v. (vote_user_id v, vote_post_id v))
          (map (\<lambda>v. if vote_user_id v = uid \<and> vote_post_id v = pid then v\<lparr>vote_type := vt\<rparr> else v)
             (post_votes t)) = map (\<lambda>v. (vote_user_id v, vote_post_id v)) (post_votes t)"
    by (induction "post_votes t") auto
  with assms show ?thesis
    by (auto simp: ledger_keyed_def update_posts_def set_vote_type_def simp del: map_map)
qed

lemma posts_after_insert:
  "posts (update_posts pid f (insert_vote uid pid vt t)) =
     map (\<lambda>p. if post_id p = pid then f p else p) (posts t)"
  by (simp add: update_posts_def insert_vote_def)

lemma posts_after_flip:
  "posts (update_posts pid f (set_vote_type vt uid pid t)) =
     map (\<lambda>p. if post_id p = pid then f p else p) (posts t)"
  by (simp add: update_posts_def set_vote_type_def)

lemma match_insert_up:
  assumes "counters_match_ledger t" and "\<exists>ps. matching_posts pid t = post # ps"
  shows "counters_match_ledger
           (update_posts pid (\<lambda>p. p\<lparr>upvotes := upvotes post + 1\<rparr>) (insert_vote uid pid 1 t))"
proof -
  from assms(2) have post: "post \<in> set (posts t)" "post_id post = pid"
    using matching_posts_hd by blast+
  show ?thesis
    unfolding counters_match_ledger_def posts_after_insert count_update_posts count_insert
    using assms(1) post by (auto simp: counters_match_ledger_def)
qed

lemma match_insert_down:
  assumes "counters_match_ledger t" and "\<exists>ps. matching_posts pid t = post # ps"
  shows "counters_match_ledger
           (update_posts pid (\<lambda>p. p\<lparr>downvotes := downvotes post + 1\<rparr>) (insert_vote uid pid (- 1) t))"
proof -
  from assms(2) have post: "post \<in> set (posts t)" "post_id post = pid"
    using matching_posts_hd by blast+
  show ?thesis
    unfolding counters_match_ledger_def posts_after_insert count_update_posts count_insert
    using assms(1) post by (auto simp: counters_match_ledger_def)
qed

lemma match_flip_up:
  assumes "counters_match_ledger t" and "ledger_keyed t"
    and "\<exists>ps. matching_posts pid t = post # ps"
    and "\<exists>es. map vote_type (matching_votes uid pid t) = e # es" and "e \<noteq> 1"
  shows "counters_match_ledger
           (update_posts pid (\<lambda>p. p\<lparr>upvotes := upvotes post + 1, downvotes := downvotes post - 1\<rparr>)
              (set_vote_type 1 uid pid t))"
proof -
  from assms(3) have post: "post \<in> set (posts t)" "post_id post = pid"
    using matching_posts_hd by blast+
  from assms(4) obtain es z zs
    where es: "map vote_type (matching_votes uid pid t) = e # es"
      and z: "matching_votes uid pid t = z # zs" "vote_type z = e"
    by (auto simp: map_eq_Cons_conv)
  with assms(2,5) matching_votes_keyed have e: "e = - 1" by blast
  have c: "count_votes (set_vote_type 1 uid pid t) q w =
           (if q = pid \<and> w = 1 then count_votes t q w + 1
            else if q = pid \<and> w = - 1 then count_votes t q w - 1
            else count_votes t q w)" if "w = - 1 \<or> w = 1" for q w
    using count_flip [OF assms(2), of uid pid "- 1" es 1 w q] es e that by simp
  show ?thesis
    unfolding counters_match_ledger_def posts_after_flip count_update_posts
    using assms(1) post by (auto simp: counters_match_ledger_def c)
qed

lemma match_flip_down:
  assumes "counters_match_ledger t" and "ledger_keyed t"
    and "\<exists>ps. matching_posts pid t = post # ps"
    and "\<exists>es. map vote_type (matching_votes uid pid t) = e # es" and "e \<noteq> - 1"
  shows "counters_match_ledger
           (update_posts pid (\<lambda>p. p\<lparr>upvotes := upvotes post - 1, downvotes := downvotes post + 1\<rparr>)
              (set_vote_type (- 1) uid pid t))"
proof -
  from assms(3) have post: "post \<in> set (posts t)" "post_id post = pid"
    using matching_posts_hd by blast+
  from assms(4) obtain es z zs
    where es: "map vote_type (matching_votes uid pid t) = e # es"
      and z: "matching_votes uid pid t = z # zs" "vote_type z = e"
    by (auto simp: map_eq_Cons_conv)
  with assms(2,5) matching_votes_keyed have e: "e = 1" by blast
  have c: "count_votes (set_vote_type (- 1) uid pid t) q w =
           (if q = pid \<and> w = - 1 then count_votes t q w + 1
            else if q = pid \<and> w = 1 then count_votes t q w - 1
            else count_votes t q w)" if "w = 1 \<or> w = - 1" for q w
    using count_flip [OF assms(2), of uid pid 1 es "- 1" w q] es e that by simp
  show ?thesis
    unfolding counters_match_ledger_def posts_after_flip count_update_posts
    using assms(1) post by (auto simp: counters_match_ledger_def c)
qed

lemmas preserve = match_insert_up match_insert_down match_flip_up match_flip_down
  keyed_insert keyed_flip

subsection \<open>One call\<close>

lemma vote_preserves:
  assumes "store_ok d"
  shows "store_ok (snd (run (vote_route jwt_verify i req) fault d))"
proof (cases i)
  case UP
  show ?thesis
  proof (cases fault rule: fault_cases)
    case 1 with assms UP show ?thesis
      by (simp add: vote_route_defs run_simps store_ok_def preserve split: run_splits)
  next
    case 2 with assms UP show ?thesis
      by (simp add: vote_route_defs run_simps store_ok_def preserve split: run_splits)
  next
    case 3 with assms UP show ?thesis
      by (simp add: vote_route_defs run_simps store_ok_def preserve split: run_splits)
  next
    case 4 with assms UP show ?thesis
      by (simp add: vote_route_defs run_simps store_ok_def preserve split: run_splits)
  next
    case 5 with assms UP show ?thesis
      by (simp add: vote_route_defs run_simps store_ok_def preserve split: run_splits)
  next
    case 6 with assms UP show ?thesis
      by (simp add: vote_route_defs run_simps store_ok_def preserve split: run_splits)
  next
    case 7 with assms UP show ?thesis
      by (simp add: vote_route_defs run_simps store_ok_def preserve split: run_splits)
  next
    case 8 with assms UP show ?thesis
      by (simp add: vote_route_defs run_simps store_ok_def preserve split: run_splits)
  qed
next
  case DOWN
  show ?thesis
  proof (cases fault rule: fault_cases)
    case 1 with assms DOWN show ?thesis
      by (simp add: vote_route_defs run_simps store_ok_def preserve split: run_splits)
  next
    case 2 with assms DOWN show ?thesis
      by (simp add: vote_route_defs run_simps store_ok_def preserve split: run_splits)
  next
    case 3 with assms DOWN show ?thesis
      by (simp add: vote_route_defs run_simps store_ok_def preserve split: run_splits)
  next
    case 4 with assms DOWN show ?thesis
      by (simp add: vote_route_defs run_simps store_ok_def preserve split: run_splits)
  next
    case 5 with assms DOWN show ?thesis
      by (simp add: vote_route_defs run_simps store_ok_def preserve split: run_splits)
  next
    case 6 with assms DOWN show ?thesis
      by (simp add: vote_route_defs run_simps store_ok_def preserve split: run_splits)
  next
    case 7 with assms DOWN show ?thesis
      by (simp add: vote_route_defs run_simps store_ok_def preserve split: run_splits)
  next
    case 8 with assms DOWN show ?thesis
      by (simp add: vote_route_defs run_simps store_ok_def preserve split: run_splits)
  qed
qed

lemma vote_rejected:
  assumes "txn d = None"
  shows "rejected (vote_route jwt_verify i req) fault d \<longrightarrow>
         run (vote_route jwt_verify i req) fault d =
           (res_json 500 (message ''Internal server error''), d)"
proof (cases i)
  case UP
  show ?thesis
  proof (cases fault rule: fault_cases)
    case 1 with assms UP show ?thesis
      by (simp add: vote_route_defs run_simps split: run_splits)
  next
    case 2 with assms UP show ?thesis
      by (simp add: vote_route_defs run_simps split: run_splits)
  next
    case 3 with assms UP show ?thesis
      by (simp add: vote_route_defs run_simps split: run_splits)
  next
    case 4 with assms UP show ?thesis
      by (simp add: vote_route_defs run_simps split: run_splits)
  next
    case 5 with assms UP show ?thesis
      by (simp add: vote_route_defs run_simps split: run_splits)
  next
    case 6 with assms UP show ?thesis
      by (simp add: vote_route_defs run_simps split: run_splits)
  next
    case 7 with assms UP show ?thesis
      by (simp add: vote_route_defs run_simps split: run_splits)
  next
    case 8 with assms UP show ?thesis
      by (simp add: vote_route_defs run_simps split: run_splits)
  qed
next
  case DOWN
  show ?thesis
  proof (cases fault rule: fault_cases)
    case 1 with assms DOWN show ?thesis
      by (simp add: vote_route_defs run_simps split: run_splits)
  next
    case 2 with assms DOWN show ?thesis
      by (simp add: vote_route_defs run_simps split: run_splits)
  next
    case 3 with assms DOWN show ?thesis
      by (simp add: vote_route_defs run_simps split: run_splits)
  next
    case 4 with assms DOWN show ?thesis
      by (simp add: vote_route_defs run_simps split: run_splits)
  next
    case 5 with assms DOWN show ?thesis
      by (simp add: vote_route_defs run_simps split: run_splits)
  next
    case 6 with assms DOWN show ?thesis
      by (simp add: vote_route_defs run_simps split: run_splits)
  next
    case 7 with assms DOWN show ?thesis
      by (simp add: vote_route_defs run_simps split: run_splits)
  next
    case 8 with assms DOWN show ?thesis
      by (simp add: vote_route_defs run_simps split: run_splits)
  qed
qed

subsection \<open>The rows of the vote state machine\<close>

lemma upvote_new:
  assumes "authMiddleware jwt_verify req = Inr user"
    and "parseInt (params_id req) = Some postId" and "postId \<noteq> 0"
    and "int4 postId" and "int4 (userId user)"
    and "matching_posts postId (cur d) = post # ps"
    and "matching_votes (userId user) postId (cur d) = []"
  shows "run (upvote_route jwt_verify req) None d =
           (res_json 200 (JObj [(''success'', JBool True), (''upvotes'', JNum (upvotes post + 1)),
              (''message'', JStr ''Upvoted!'')]),
            \<lparr>cur = update_posts postId (\<lambda>p. p\<lparr>upvotes := upvotes post + 1\<rparr>)
                     (insert_vote (userId user) postId 1 (cur d)), txn = None\<rparr>)"
  using assms by (simp add: vote_route_defs run_simps split: option.split)

lemma downvote_new:
  assumes "authMiddleware jwt_verify req = Inr user"
    and "parseInt (params_id req) = Some postId" and "postId \<noteq> 0"
    and "int4 postId" and "int4 (userId user)"
    and "matching_posts postId (cur d) = post # ps"
    and "matching_votes (userId user) postId (cur d) = []"
  shows "run (downvote_route jwt_verify req) None d =
           (res_json 200 (JObj [(''success'', JBool True), (''downvotes'', JNum (downvotes post + 1)),
              (''message'', JStr ''Downvoted!'')]),
            \<lparr>cur = update_posts postId (\<lambda>p. p\<lparr>downvotes := downvotes post + 1\<rparr>)
                     (insert_vote (userId user) postId (- 1) (cur d)), txn = None\<rparr>)"
  using assms by (simp add: vote_route_defs run_simps split: option.split)

lemma upvote_switch:
  assumes "authMiddleware jwt_verify req = Inr user"
    and "parseInt (params_id req) = Some postId" and "postId \<noteq> 0"
    and "int4 postId" and "int4 (userId user)"
    and "matching_posts postId (cur d) = post # ps"
    and "matching_votes (userId user) postId (cur d) = v # vs" and "vote_type v \<noteq> 1"
  shows "run (upvote_route jwt_verify req) None d =
           (res_json 200 (JObj [(''success'', JBool True), (''upvotes'', JNum (upvotes post + 1)),
              (''downvotes'', JNum (downvotes post - 1)), (''message'', JStr ''Changed vote to upvote.'')]),
            \<lparr>cur = update_posts postId
                     (\<lambda>p. p\<lparr>upvotes := upvotes post + 1, downvotes := downvotes post - 1\<rparr>)
                     (set_vote_type 1 (userId user) postId (cur d)), txn = None\<rparr>)"
  using assms by (simp add: vote_route_defs run_simps split: option.split)

lemma downvote_switch:
  assumes "authMiddleware jwt_verify req = Inr user"
    and "parseInt (params_id req) = Some postId" and "postId \<noteq> 0"
    and "int4 postId" and "int4 (userId user)"
    and "matching_posts postId (cur d) = post # ps"
    and "matching_votes (userId user) postId (cur d) = v # vs" and "vote_type v \<noteq> - 1"
  shows "run (downvote_route jwt_verify req) None d =
           (res_json 200 (JObj [(''success'', JBool True), (''upvotes'', JNum (upvotes post - 1)),
              (''downvotes'', JNum (downvotes post + 1)), (''message'', JStr ''Changed vote to downvote.'')]),
            \<lparr>cur = update_posts postId
                     (\<lambda>p. p\<lparr>upvotes := upvotes post - 1, downvotes := downvotes post + 1\<rparr>)
                     (set_vote_type (- 1) (userId user) postId (cur d)), txn = None\<rparr>)"
  using assms by (simp add: vote_route_defs run_simps split: option.split)

lemma downvote_already:
  assumes "authMiddleware jwt_verify req = Inr user"
    and "parseInt (params_id req) = Some postId" and "postId \<noteq> 0"
    and "int4 postId" and "int4 (userId user)"
    and "matching_posts postId (cur d) = post # ps"
    and "matching_votes (userId user) postId (cur d) = v # vs" and "vote_type v = - 1"
  shows "run (downvote_route jwt_verify req) None d =
           (res_json 200 (JObj [(''success'', JBool False),
              (''message'', JStr ''Already downvoted this post.'')]), d)"
  using assms by (simp add: vote_route_defs run_simps split: option.split)

lemma matching_posts_insert_vote [simp]:
  "matching_posts pid (insert_vote u q vt t) = matching_posts pid t"
  by (simp add: matching_posts_def insert_vote_def)

lemma matching_posts_set_vote_type [simp]:
  "matching_posts pid (set_vote_type vt u q t) = matching_posts pid t"
  by (simp add: matching_posts_def set_vote_type_def)

lemma matching_votes_update_posts [simp]:
  "matching_votes u pid (update_posts q f t) = matching_votes u pid t"
  by (simp add: matching_votes_def update_posts_def)

lemma matching_votes_insert_vote:
  "matching_votes u pid (insert_vote u' q vt t) =
     matching_votes u pid t @
       (if u = u' \<and> pid = q then [\<lparr>vote_user_id = u', vote_post_id = q, vote_type = vt\<rparr>] else [])"
  by (simp add: matching_votes_def insert_vote_def)

lemma filter_flip:
  "filter (\<lambda>v. vote_user_id v = u \<and> vote_post_id v = pid)
     (map (\<lambda>v. if vote_user_id v = u' \<and> vote_post_id v = q then v\<lparr>vote_type := vt\<rparr> else v) vs) =
   (if u = u' \<and> pid = q
    then map (\<lambda>v. v\<lparr>vote_type := vt\<rparr>) (filter (\<lambda>v. vote_user_id v = u \<and> vote_post_id v = pid) vs)
    else filter (\<lambda>v. vote_user_id v = u \<and> vote_post_id v = pid) vs)"
  by (induction vs) auto

lemma matching_votes_set_vote_type:
  "matching_votes u pid (set_vote_type vt u' q t) =
     (if u = u' \<and> pid = q then map (\<lambda>v. v\<lparr>vote_type := vt\<rparr>) (matching_votes u pid t)
      else matching_votes u pid t)"
proof -
  have "matching_votes u pid (set_vote_type vt u' q t) =
          filter (\<lambda>v. vote_user_id v = u \<and> vote_post_id v = pid)
            (map (\<lambda>v. if vote_user_id v = u' \<and> vote_post_id v = q then v\<lparr>vote_type := vt\<rparr> else v)
               (post_votes t))"
    by (simp add: matching_votes_def set_vote_type_def del: filter_map)
  then show ?thesis
    by (simp only: filter_flip matching_votes_def)
qed

lemma matching_posts_update_posts:
  assumes "\<And>p. post_id (f p) = post_id p"
  shows "matching_posts pid (update_posts pid f t) = map f (matching_posts pid t)"
proof -
  have "filter (\<lambda>p. post_id p = pid) (map (\<lambda>p. if post_id p = pid then f p else p) ps) =
        map f (filter (\<lambda>p. post_id p = pid) ps)" for ps
    using assms by (induction ps) auto
  then show ?thesis
    by (simp add: matching_posts_def update_posts_def)
qed

section \<open>Claims about voting\<close>

text \<open>
  C1, as amended. With the vote ledger: from a store outside a transaction whose counters
  equal the ledger counts, and whose ledger has one row for a user and a post with
  direction +1 or -1, any sequence of upvote and downvote calls served one after another,
  each with or without a rejected statement, leaves such a store. So after every call of
  the sequence every post's \<^verbatim>\<open>upvotes\<close> is the number of its +1 rows and its
  \<^verbatim>\<open>downvotes\<close> the number of its -1 rows.
\<close>

theorem ledger_votes_keep_counters:
  assumes "store_ok d"
  shows "store_ok (snd (vote_session jwt_verify calls d))"
  using assms
proof (induction calls arbitrary: d)
  case Nil
  then show ?case by simp
next
  case (Cons c calls)
  obtain i req fault where c: "c = (i, req, fault)" by (cases c)
  from Cons.prems have "store_ok (snd (run (vote_route jwt_verify i req) fault d))"
    by (rule vote_preserves)
  from Cons.IH [OF this] c show ?case
    by (simp add: case_prod_beta)
qed

theorem ledger_votes_keep_counters_witness:
  "store_ok fresh_post_db \<and>
   store_ok (snd (vote_session verify_example
     [(UP, request_of (Some ''Bearer alice'') ''1'', None),
      (DOWN, request_of (Some ''Bearer alice'') ''1'', None),
      (DOWN, request_of (Some ''Bearer bob'') ''1'', Some 4)] fresh_post_db))"
proof -
  have "store_ok fresh_post_db"
    by (simp add: store_ok_def counters_match_ledger_def ledger_keyed_def count_votes_def
        fresh_post_db_def empty_tables_def)
  with ledger_votes_keep_counters [of fresh_post_db] show ?thesis
    by blast
qed

text \<open>
  C1 as stated fails for the variant without a ledger: on a post that nobody has voted on,
  its upvote route sets \<^verbatim>\<open>upvotes\<close> to 1 while the ledger has no row for the post.
\<close>

theorem counter_only_vote_breaks_consistency:
  "store_ok fresh_post_db \<and>
   \<not> counters_match_ledger
       (cur (snd (run (upvote_counter_only (request_of None ''1'')) None fresh_post_db)))"
  by (simp add: upvote_counter_only_def run_simps example_defs store_ok_def
      counters_match_ledger_def ledger_keyed_def count_votes_def)

text \<open>
  A vote call served alone, from a store outside a transaction: when a statement of the
  call is rejected, whichever it is, the call answers 500 and the store, ledger and
  counters, is the store from before the call.
\<close>

lemma vote_failure_rolls_back_alone:
  assumes "txn d = None" and "rejected (vote_route jwt_verify i req) fault d"
  shows "run (vote_route jwt_verify i req) fault d =
           (res_json 500 (message ''Internal server error''), d)"
  using vote_rejected [OF assms(1)] assms(2) by blast

lemma vote_failure_rolls_back_alone_example:
  "run (vote_route verify_example UP (request_of (Some ''Bearer alice'') ''1''))
       (Some (Suc (Suc (Suc (Suc 0))))) fresh_post_db =
       (res_json 500 (message ''Internal server error''), fresh_post_db)"
proof -
  have t: "txn fresh_post_db = None"
    by (simp add: fresh_post_db_def)
  have r: "rejected (vote_route verify_example UP (request_of (Some ''Bearer alice'') ''1''))
       (Some (Suc (Suc (Suc (Suc 0))))) fresh_post_db"
    by (simp add: vote_route_defs run_simps example_defs)
  from vote_failure_rolls_back_alone [OF t r] show ?thesis .
qed

text \<open>
  C2. On an existing post with \<^verbatim>\<open>upvotes = 0\<close>, \<^verbatim>\<open>downvotes = 0\<close> and no ledger row:
  user A upvotes and gets \<^verbatim>\<open>{success: true, upvotes: 1}\<close>, with A's ledger entry +1; A
  then downvotes and gets \<^verbatim>\<open>{success: true, upvotes: 0, downvotes: 1}\<close>, with A's entry
  flipped to -1; another user B then downvotes and gets \<^verbatim>\<open>{success: true, downvotes: 2}\<close>,
  with a -1 entry for B, and the post ends with counters 0 and 2.
\<close>

theorem fresh_post_vote_sequence:
  assumes "authMiddleware jwt_verify reqA = Inr userA"
    and "authMiddleware jwt_verify reqB = Inr userB"
    and "userId userA \<noteq> userId userB"
    and "parseInt (params_id reqA) = Some postId" and "parseInt (params_id reqB) = Some postId"
    and "postId \<noteq> 0" and "int4 postId" and "int4 (userId userA)" and "int4 (userId userB)"
    and "matching_posts postId (cur d) = [\<lparr>post_id = postId, upvotes = 0, downvotes = 0\<rparr>]"
    and "filter (\<lambda>v. vote_post_id v = postId) (post_votes (cur d)) = []"
  shows "fst (vote_session jwt_verify [(UP, reqA, None), (DOWN, reqA, None), (DOWN, reqB, None)] d) =
           [res_json 200 (JObj [(''success'', JBool True), (''upvotes'', JNum 1),
              (''message'', JStr ''Upvoted!'')]),
            res_json 200 (JObj [(''success'', JBool True), (''upvotes'', JNum 0),
              (''downvotes'', JNum 1), (''message'', JStr ''Changed vote to downvote.'')]),
            res_json 200 (JObj [(''success'', JBool True), (''downvotes'', JNum 2),
              (''message'', JStr ''Downvoted!'')])]
       \<and> ledger_entry (cur (snd (vote_session jwt_verify [(UP, reqA, None)] d)))
             (userId userA) postId = Some 1
       \<and> ledger_entry (cur (snd (vote_session jwt_verify [(UP, reqA, None), (DOWN, reqA, None)] d)))
             (userId userA) postId = Some (- 1)
       \<and> ledger_entry (cur (snd (vote_session jwt_verify
             [(UP, reqA, None), (DOWN, reqA, None), (DOWN, reqB, None)] d)))
             (userId userB) postId = Some (- 1)
       \<and> matching_posts postId (cur (snd (vote_session jwt_verify
             [(UP, reqA, None), (DOWN, reqA, None), (DOWN, reqB, None)] d))) =
           [\<lparr>post_id = postId, upvotes = 0, downvotes = 2\<rparr>]"
proof -
  let ?A = "userId userA" and ?B = "userId userB"
  let ?post = "\<lparr>post_id = postId, upvotes = 0, downvotes = 0\<rparr>"
  have nov: "\<forall>v \<in> set (post_votes (cur d)). vote_post_id v \<noteq> postId"
    using assms(11) by (simp add: filter_empty_conv)
  have mv: "matching_votes u postId (cur d) = []" for u
    using nov by (simp add: matching_votes_def filter_empty_conv)
  define d1 where "d1 = \<lparr>cur = update_posts postId (\<lambda>p. p\<lparr>upvotes := upvotes ?post + 1\<rparr>)
                     (insert_vote ?A postId 1 (cur d)), txn = None\<rparr>"
  define d2 where "d2 = \<lparr>cur = update_posts postId (\<lambda>p. p\<lparr>upvotes := 1 - 1, downvotes := 0 + 1\<rparr>)
                     (set_vote_type (- 1) ?A postId (cur d1)), txn = None\<rparr>"
  define d3 where "d3 = \<lparr>cur = update_posts postId (\<lambda>p. p\<lparr>downvotes := 1 + 1\<rparr>)
                     (insert_vote ?B postId (- 1) (cur d2)), txn = None\<rparr>"
  have s1: "run (vote_route jwt_verify UP reqA) None d =
      (res_json 200 (JObj [(''success'', JBool True), (''upvotes'', JNum 1),
         (''message'', JStr ''Upvoted!'')]), d1)"
    using upvote_new [OF assms(1,4,6,7,8,10) mv] by (simp add: d1_def vote_route_def)
  have p1: "matching_posts postId (cur d1) = [\<lparr>post_id = postId, upvotes = 1, downvotes = 0\<rparr>]"
    by (simp add: d1_def matching_posts_update_posts assms(10))
  have v1: "matching_votes ?A postId (cur d1) =
      [\<lparr>vote_user_id = ?A, vote_post_id = postId, vote_type = 1\<rparr>]"
    by (simp add: d1_def matching_votes_insert_vote mv)
  have s2: "run (vote_route jwt_verify DOWN reqA) None d1 =
      (res_json 200 (JObj [(''success'', JBool True), (''upvotes'', JNum 0),
         (''downvotes'', JNum 1), (''message'', JStr ''Changed vote to downvote.'')]), d2)"
    using downvote_switch [OF assms(1,4,6,7,8) p1 v1] by (simp add: d2_def vote_route_def)
  have p2: "matching_posts postId (cur d2) = [\<lparr>post_id = postId, upvotes = 0, downvotes = 1\<rparr>]"
    by (simp add: d2_def matching_posts_update_posts p1)
  have v2: "matching_votes ?A postId (cur d2) =
      [\<lparr>vote_user_id = ?A, vote_post_id = postId, vote_type = - 1\<rparr>]"
    by (simp add: d2_def matching_votes_set_vote_type v1)
  have v2b: "matching_votes ?B postId (cur d2) = []"
    using assms(3)
    by (simp add: d2_def d1_def matching_votes_set_vote_type matching_votes_insert_vote mv)
  have s3: "run (vote_route jwt_verify DOWN reqB) None d2 =
      (res_json 200 (JObj [(''success'', JBool True), (''downvotes'', JNum 2),
         (''message'', JStr ''Downvoted!'')]), d3)"
    using downvote_new [OF assms(2,5,6,7,9) p2 v2b] by (simp add: d3_def vote_route_def)
  have p3: "matching_posts postId (cur d3) = [\<lparr>post_id = postId, upvotes = 0, downvotes = 2\<rparr>]"
    by (simp add: d3_def matching_posts_update_posts p2)
  have v3b: "matching_votes ?B postId (cur d3) =
      [\<lparr>vote_user_id = ?B, vote_post_id = postId, vote_type = - 1\<rparr>]"
    by (simp add: d3_def matching_votes_insert_vote v2b)
  show ?thesis
    by (simp add: s1 s2 s3 p3 ledger_entry_def v1 v2 v3b)
qed

theorem fresh_post_vote_sequence_witness:
  "authMiddleware verify_example (request_of (Some ''Bearer alice'') ''1'') = Inr (claims_of 10 ''user'')
   \<and> authMiddleware verify_example (request_of (Some ''Bearer bob'') ''1'') = Inr (claims_of 20 ''user'')
   \<and> parseInt ''1'' = Some 1
   \<and> matching_posts 1 (cur fresh_post_db) = [\<lparr>post_id = 1, upvotes = 0, downvotes = 0\<rparr>]
   \<and> filter (\<lambda>v. vote_post_id v = 1) (post_votes (cur fresh_post_db)) = []
   \<and> fst (vote_session verify_example
        [(UP, request_of (Some ''Bearer alice'') ''1'', None),
         (DOWN, request_of (Some ''Bearer alice'') ''1'', None),
         (DOWN, request_of (Some ''Bearer bob'') ''1'', None)] fresh_post_db) =
       [res_json 200 (JObj [(''success'', JBool True), (''upvotes'', JNum 1),
          (''message'', JStr ''Upvoted!'')]),
        res_json 200 (JObj [(''success'', JBool True), (''upvotes'', JNum 0),
          (''downvotes'', JNum 1), (''message'', JStr ''Changed vote to downvote.'')]),
        res_json 200 (JObj [(''success'', JBool True), (''downvotes'', JNum 2),
          (''message'', JStr ''Downvoted!'')])]"
proof -
  let ?reqA = "request_of (Some ''Bearer alice'') ''1''"
  let ?reqB = "request_of (Some ''Bearer bob'') ''1''"
  have a: "authMiddleware verify_example ?reqA = Inr (claims_of 10 ''user'')"
    and b: "authMiddleware verify_example ?reqB = Inr (claims_of 20 ''user'')"
    by (simp_all add: example_defs)
  have ne: "userId (claims_of 10 ''user'') \<noteq> userId (claims_of 20 ''user'')"
    by (simp add: claims_of_def)
  have p: "parseInt (params_id ?reqA) = Some 1" "parseInt (params_id ?reqB) = Some 1"
    by (simp_all add: example_defs)
  have i: "int4 1" "int4 (userId (claims_of 10 ''user''))" "int4 (userId (claims_of 20 ''user''))"
    by (simp_all add: int4_def claims_of_def)
  have m: "matching_posts 1 (cur fresh_post_db) = [\<lparr>post_id = 1, upvotes = 0, downvotes = 0\<rparr>]"
    by (simp add: example_defs)
  have l: "filter (\<lambda>v. vote_post_id v = 1) (post_votes (cur fresh_post_db)) = []"
    by (simp add: example_defs)
  from fresh_post_vote_sequence [OF a b ne p _ i m l] a b p m l show ?thesis
    by (simp add: request_of_def)
qed

text \<open>
  C9: what the upvote route does for two users whose calls are in flight together, each
  statement of one followed by the same statement of the other. Both read the counter
  before either writes it: both answer \<^verbatim>\<open>{success: true, upvotes: 1}\<close>, and the post is
  left with \<^verbatim>\<open>upvotes = 1\<close> and two +1 ledger rows.
\<close>

theorem concurrent_upvotes_lose_an_update:
  "interleave [0, 1, 0, 1, 0, 1, 0, 1, 0, 1, 0, 1]
     [upvote_route verify_example (request_of (Some ''Bearer alice'') ''1''),
      upvote_route verify_example (request_of (Some ''Bearer bob'') ''1'')] fresh_post_db =
   ([Done (res_json 200 (JObj [(''success'', JBool True), (''upvotes'', JNum 1),
             (''message'', JStr ''Upvoted!'')])),
     Done (res_json 200 (JObj [(''success'', JBool True), (''upvotes'', JNum 1),
             (''message'', JStr ''Upvoted!'')]))],
    \<lparr>cur = empty_tables
       \<lparr>posts := [\<lparr>post_id = 1, upvotes = 1, downvotes = 0\<rparr>],
        post_votes := [\<lparr>vote_user_id = 10, vote_post_id = 1, vote_type = 1\<rparr>,
                       \<lparr>vote_user_id = 20, vote_post_id = 1, vote_type = 1\<rparr>]\<rparr>,
     txn = None\<rparr>)"
  by (simp add: vote_route_defs await_def vote_catch_def example_defs with_tables_def Let_def)

text \<open>The same two calls one after the other: the second reads what the first wrote.\<close>

lemma serial_upvotes_count_both:
  "interleave [0, 0, 0, 0, 0, 0, 1, 1, 1, 1, 1, 1]
     [upvote_route verify_example (request_of (Some ''Bearer alice'') ''1''),
      upvote_route verify_example (request_of (Some ''Bearer bob'') ''1'')] fresh_post_db =
   ([Done (res_json 200 (JObj [(''success'', JBool True), (''upvotes'', JNum 1),
             (''message'', JStr ''Upvoted!'')])),
     Done (res_json 200 (JObj [(''success'', JBool True), (''upvotes'', JNum 2),
             (''message'', JStr ''Upvoted!'')]))],
    \<lparr>cur = empty_tables
       \<lparr>posts := [\<lparr>post_id = 1, upvotes = 2, downvotes = 0\<rparr>],
        post_votes := [\<lparr>vote_user_id = 10, vote_post_id = 1, vote_type = 1\<rparr>,
                       \<lparr>vote_user_id = 20, vote_post_id = 1, vote_type = 1\<rparr>]\<rparr>,
     txn = None\<rparr>)"
  by (simp add: vote_route_defs await_def vote_catch_def example_defs with_tables_def Let_def)

text \<open>A handler stepped alone runs as \<open>run\<close> says when nothing is injected.\<close>

lemma run_as_steps:
  "\<exists>n. interleave (replicate n 0) [p] d = ([Done (fst (run p None d))], snd (run p None d))"
proof (induction p arbitrary: d)
  case (Done a)
  have "interleave (replicate 0 0) [Done a] d = ([Done (fst (run (Done a) None d))],
          snd (run (Done a) None d))"
    by simp
  then show ?case by blast
next
  case (Query s k)
  obtain r d' where e: "exec s d = (r, d')" by (cases "exec s d")
  from Query.IH [of "k r" d'] obtain n
    where "interleave (replicate n 0) [k r] d' =
             ([Done (fst (run (k r) None d'))], snd (run (k r) None d'))"
    by blast
  with e have "interleave (replicate (Suc n) 0) [Query s k] d =
          ([Done (fst (run (Query s k) None d))], snd (run (Query s k) None d))"
    by simp
  then show ?case by blast
qed

text \<open>Without rejections the two ways of serving handlers together agree.\<close>

lemma interleave_faults_none:
  "interleave_faults (map (\<lambda>i. (i, False)) sched) ps d = interleave sched ps d"
  by (induction sched arbitrary: ps d) (auto split: prod.splits)

text \<open>
  C3: what the upvote route does when two calls are in flight and the store rejects one
  statement. User 10 upvotes post 1 and user 20 upvotes post 2 on the one connection; the
  \<^verbatim>\<open>BEGIN\<close> of the second call finds the transaction of the first open, the
  \<^verbatim>\<open>COMMIT\<close> of the first call commits the ledger row of the second, the counter
  update of the second call is rejected, and its \<^verbatim>\<open>ROLLBACK\<close> finds no transaction.
  The second call answers 500 and its ledger row stays, with the counter of post 2 at 0:
  the unit is not rolled back and the store of before the call is not restored.
\<close>

theorem rejected_update_leaves_ledger_row:
  "interleave_faults
     [(0, False), (0, False), (1, False), (0, False), (1, False), (0, False), (1, False),
      (0, False), (1, False), (0, False), (1, True), (1, False)]
     [upvote_route verify_example (request_of (Some ''Bearer alice'') ''1''),
      upvote_route verify_example (request_of (Some ''Bearer bob'') ''2'')] two_posts_db =
   ([Done (res_json 200 (JObj [(''success'', JBool True), (''upvotes'', JNum 1),
             (''message'', JStr ''Upvoted!'')])),
     Done (res_json 500 (message ''Internal server error''))],
    \<lparr>cur = empty_tables
       \<lparr>posts := [\<lparr>post_id = 1, upvotes = 1, downvotes = 0\<rparr>,
                  \<lparr>post_id = 2, upvotes = 0, downvotes = 0\<rparr>],
        post_votes := [\<lparr>vote_user_id = 10, vote_post_id = 1, vote_type = 1\<rparr>,
                       \<lparr>vote_user_id = 20, vote_post_id = 2, vote_type = 1\<rparr>]\<rparr>,
     txn = None\<rparr>)"
  by (simp add: vote_route_defs await_def vote_catch_def example_defs with_tables_def Let_def)

section \<open>Claims about roles\<close>





text \<open>
  C5, as amended. When the target user does not exist: \<^verbatim>\<open>PUT /api/users/:id/role\<close>
  answers 404 whatever the caller's role, once the role in the body has passed as one of
  the three allowed names (400 otherwise); promote-to-moderator and user deletion check
  the caller's role first, so they answer 404 to an admin or a moderator and 403 to anyone
  else. The store is unchanged in every case.
\<close>

theorem absent_target_status:
  assumes "authMiddleware jwt_verify req = Inr user"
    and "sql_integer (params_id req) = Some uid"
    and "matching_users uid (cur d) = []"
  shows "run (put_user_role_route jwt_verify req) None d =
           (if body_role req \<in> set [Some ''user'', Some ''moderator'', Some ''admin'']
            then res_json 404 (message ''User not found'')
            else res_json 400 (message ''Invalid role''), d)
       \<and> run (promoteToModerator_route jwt_verify req) None d =
           (if token_role user \<noteq> ''admin'' \<and> token_role user \<noteq> ''moderator''
            then res_json 403 (message ''Forbidden: only mods or admins'')
            else res_json 404 (message ''User not found''), d)
       \<and> run (delete_user_route jwt_verify req) None d =
           (if token_role user \<noteq> ''admin'' \<and> token_role user \<noteq> ''moderator''
            then res_json 403 (message ''Forbidden: only admin or moderator can delete users'')
            else res_json 404 (message ''User not found''), d)"
  using assms
  by (auto simp: user_route_defs run_simps split: option.split)

theorem absent_target_status_witness:
  "authMiddleware verify_example
      ((request_of (Some ''Bearer alice'') ''99'')\<lparr>body_role := Some ''admin''\<rparr>) =
     Inr (claims_of 10 ''user'')
   \<and> sql_integer ''99'' = Some 99
   \<and> matching_users 99 (cur staff_db) = []
   \<and> run (put_user_role_route verify_example
        ((request_of (Some ''Bearer alice'') ''99'')\<lparr>body_role := Some ''admin''\<rparr>)) None staff_db =
       (res_json 404 (message ''User not found''), staff_db)
   \<and> run (promoteToModerator_route verify_example
        ((request_of (Some ''Bearer alice'') ''99'')\<lparr>body_role := Some ''admin''\<rparr>)) None staff_db =
       (res_json 403 (message ''Forbidden: only mods or admins''), staff_db)
   \<and> run (delete_user_route verify_example
        ((request_of (Some ''Bearer alice'') ''99'')\<lparr>body_role := Some ''admin''\<rparr>)) None staff_db =
       (res_json 403 (message ''Forbidden: only admin or moderator can delete users''), staff_db)"
proof -
  let ?req = "(request_of (Some ''Bearer alice'') ''99'')\<lparr>body_role := Some ''admin''\<rparr>"
  have a: "authMiddleware verify_example ?req = Inr (claims_of 10 ''user'')"
    by (simp add: example_defs)
  have k: "sql_integer (params_id ?req) = Some 99"
    by (simp add: example_defs)
  have m: "matching_users 99 (cur staff_db) = []"
    by (simp add: example_defs)
  from absent_target_status [OF a k m] a k m show ?thesis
    by (simp add: request_of_def claims_of_def)
qed

text \<open>
  C5 as stated fails for promote-to-moderator and for user deletion: a plain user who names
  a user that does not exist gets 403, not 404.
\<close>

theorem absent_target_forbidden_first:
  "matching_users 99 (cur staff_db) = []
   \<and> run (promoteToModerator_route verify_example (request_of (Some ''Bearer alice'') ''99'')) None
       staff_db = (res_json 403 (message ''Forbidden: only mods or admins''), staff_db)
   \<and> run (delete_user_route verify_example (request_of (Some ''Bearer alice'') ''99'')) None
       staff_db =
       (res_json 403 (message ''Forbidden: only admin or moderator can delete users''), staff_db)"
  by (simp add: user_route_defs run_simps example_defs)

section \<open>Claims about comments\<close>

lemma matching_comments_edited:
  "matching_comments cid (set_comment_text tx cid t) =
     map (\<lambda>c. c\<lparr>comment_text := tx\<rparr>) (matching_comments cid t)"
proof -
  have "filter (\<lambda>c. comment_id c = cid)
          (map (\<lambda>c. if comment_id c = cid then c\<lparr>comment_text := tx\<rparr> else c) cs) =
        map (\<lambda>c. c\<lparr>comment_text := tx\<rparr>) (filter (\<lambda>c. comment_id c = cid) cs)" for cs
    by (induction cs) auto
  then show ?thesis
    by (simp add: matching_comments_def set_comment_text_def del: filter_map)
qed

text \<open>
  C7, as amended. Editing an existing comment with a non-empty text. Behind the middleware
  a request that does not authenticate gets the middleware's 401, and an authenticated
  caller gets the edit only as the author of the comment; any other caller, whatever the
  role in the token, gets 403 and the store is unchanged. The variant of the route with
  no middleware makes the edit for every request, with or without a token.
\<close>

theorem comment_edit_by_variant:
  assumes "body_text req = Some text" and "text \<noteq> []"
    and "sql_integer (params_id req) = Some cid"
    and "matching_comments cid (cur d) = c # cs"
  shows "run (put_comment_route jwt_verify req) None d =
           (case authMiddleware jwt_verify req of
              Inl denied \<Rightarrow> (denied, d)
            | Inr user \<Rightarrow>
                if author_id c = userId user
                then (res_json 200 (comment_json (c\<lparr>comment_text := text\<rparr>)),
                      d\<lparr>cur := set_comment_text text cid (cur d)\<rparr>)
                else (res_json 403 (message ''Forbidden: only the author can edit''), d))
       \<and> run (put_comment_open req) None d =
           (res_json 200 (comment_json (c\<lparr>comment_text := text\<rparr>)),
            d\<lparr>cur := set_comment_text text cid (cur d)\<rparr>)
       \<and> matching_comments cid (set_comment_text text cid (cur d)) =
           map (\<lambda>c. c\<lparr>comment_text := text\<rparr>) (c # cs)"
  using assms
  by (simp add: user_route_defs run_simps matching_comments_edited first_comment_def split: sum.split)

theorem comment_edit_by_variant_witness:
  "sql_integer ''5'' = Some 5
   \<and> matching_comments 5 (cur staff_db) =
       [\<lparr>comment_id = 5, comment_post_id = 1, author_id = 10, comment_text = ''first''\<rparr>]
   \<and> authMiddleware verify_example
      ((request_of (Some ''Bearer mod'') ''5'')\<lparr>body_text := Some ''edited''\<rparr>) =
     Inr (claims_of 30 ''moderator'')
   \<and> run (put_comment_route verify_example
        ((request_of (Some ''Bearer mod'') ''5'')\<lparr>body_text := Some ''edited''\<rparr>)) None staff_db =
       (res_json 403 (message ''Forbidden: only the author can edit''), staff_db)
   \<and> authorization ((request_of None ''5'')\<lparr>body_text := Some ''edited''\<rparr>) = None
   \<and> run (put_comment_route verify_example
        ((request_of None ''5'')\<lparr>body_text := Some ''edited''\<rparr>)) None staff_db =
       (res_send 401 ''No token'', staff_db)
   \<and> run (put_comment_open ((request_of None ''5'')\<lparr>body_text := Some ''edited''\<rparr>)) None staff_db =
       (res_json 200 (comment_json
          \<lparr>comment_id = 5, comment_post_id = 1, author_id = 10, comment_text = ''edited''\<rparr>),
        staff_db\<lparr>cur := set_comment_text ''edited'' 5 (cur staff_db)\<rparr>)"
proof -
  let ?req = "(request_of (Some ''Bearer mod'') ''5'')\<lparr>body_text := Some ''edited''\<rparr>"
  let ?anon = "(request_of None ''5'')\<lparr>body_text := Some ''edited''\<rparr>"
  have a: "authMiddleware verify_example ?req = Inr (claims_of 30 ''moderator'')"
    and a': "authMiddleware verify_example ?anon = Inl (res_send 401 ''No token'')"
    by (simp_all add: example_defs)
  have b: "body_text ?req = Some ''edited''" "''edited'' \<noteq> []"
    and b': "body_text ?anon = Some ''edited''"
    by simp_all
  have k: "sql_integer (params_id ?req) = Some 5" and k': "sql_integer (params_id ?anon) = Some 5"
    by (simp_all add: example_defs)
  have m: "matching_comments 5 (cur staff_db) =
       [\<lparr>comment_id = 5, comment_post_id = 1, author_id = 10, comment_text = ''first''\<rparr>]"
    by (simp add: example_defs)
  from comment_edit_by_variant [OF b k m, of verify_example]
    comment_edit_by_variant [OF b' b(2) k' m, of verify_example] a a' k m
  show ?thesis
    by (simp add: request_of_def claims_of_def)
qed

text \<open>
  C7 as stated fails on the route with no middleware: a request with no credentials edits
  the comment of user 10.
\<close>

theorem open_comment_edit_by_anyone:
  "authorization ((request_of None ''5'')\<lparr>body_text := Some ''edited''\<rparr>) = None
   \<and> map author_id (matching_comments 5 (cur staff_db)) = [10]
   \<and> run (put_comment_open ((request_of None ''5'')\<lparr>body_text := Some ''edited''\<rparr>)) None staff_db =
       (res_json 200 (comment_json
          \<lparr>comment_id = 5, comment_post_id = 1, author_id = 10, comment_text = ''edited''\<rparr>),
        staff_db\<lparr>cur := set_comment_text ''edited'' 5 (cur staff_db)\<rparr>)
   \<and> map comment_text (comments (set_comment_text ''edited'' 5 (cur staff_db))) = [''edited'']"
  by (simp add: user_route_defs run_simps example_defs)

section \<open>Claims about restaurants and registration\<close>

text \<open>
  C8. \<^verbatim>\<open>POST /api/restaurants\<close> when the geocoder's answer has no documents (the list is
  missing or empty): the handler answers 400 with \<^verbatim>\<open>'Kakao: No results for that address'\<close>
  without sending one statement, so the restaurants table is as before.
\<close>

theorem no_geocoding_result_is_client_error:
  assumes "axios_get (body_address req) = Inr None \<or> axios_get (body_address req) = Inr (Some [])"
  shows "post_restaurants axios_get req =
           Done (res_json 400 (message ''Kakao: No results for that address''))
       \<and> run (post_restaurants axios_get req) fault d =
           (res_json 400 (message ''Kakao: No results for that address''), d)"
  using assms by (auto simp: post_restaurants_def)

theorem no_geocoding_result_is_client_error_witness:
  "no_documents (body_address ((request_of None [])\<lparr>body_address := Some ''nowhere''\<rparr>)) = Inr (Some [])
   \<and> run (post_restaurants no_documents ((request_of None [])\<lparr>body_address := Some ''nowhere''\<rparr>))
       None staff_db =
       (res_json 400 (message ''Kakao: No results for that address''), staff_db)"
proof -
  let ?req = "(request_of None [])\<lparr>body_address := Some ''nowhere''\<rparr>"
  have h: "no_documents (body_address ?req) = Inr None \<or>
           no_documents (body_address ?req) = Inr (Some [])"
    by (simp add: no_documents_def)
  from no_geocoding_result_is_client_error
         [where axios_get = no_documents and req = ?req and fault = None and d = staff_db] h
  show ?thesis
    by (simp add: no_documents_def)
qed

text \<open>With a document the row is written: the 400 above is not the only path of the model.\<close>

lemma geocoded_restaurant_is_stored:
  assumes "axios_get (body_address req) = Inr (Some (doc # docs))"
    and "doc_address doc = Some addr" and "road_address doc = None"
    and "restaurants (cur d) = []"
  shows "run (post_restaurants axios_get req) None d =
           (res_json 200 (JObj [(''success'', JBool True), (''id'', JNum (restaurants_id_seq (cur d)))]),
            d\<lparr>cur := (cur d)\<lparr>restaurants :=
               [\<lparr>restaurant_id = restaurants_id_seq (cur d), restaurant_name = body_name req,
                 flags = body_flags req, si_do = region_1depth_name addr,
                 si_gun_gu = region_2depth_name addr, eup_myeon_dong = region_3depth_name addr,
                 postal_code = [], road_name_col = [], full_address = body_address req,
                 geom = (ParseFloat (addr_x addr), ParseFloat (addr_y addr))\<rparr>],
               restaurants_id_seq := restaurants_id_seq (cur d) + 1\<rparr>\<rparr>)"
  using assms
  by (simp add: post_restaurants_def parseKakaoDoc_def run_simps)

text \<open>
  C10, as amended. \<^verbatim>\<open>POST /api/auth/register\<close>, in both variants, with a non-empty
  username and password: the new account has the role of the body when that is a non-empty
  string, and \<^verbatim>\<open>'user'\<close> when the field is missing or the empty string. No credential is
  read: a request with no \<^verbatim>\<open>Authorization\<close> header and \<^verbatim>\<open>role: 'admin'\<close> in its body
  obtains an account, and in the token variant a token, with role \<^verbatim>\<open>admin\<close>.
\<close>

theorem register_takes_role_from_body:
  assumes "body_username req = Some uname" and "uname \<noteq> []"
    and "body_password req = Some password" and "password \<noteq> []"
    and "u = \<lparr>user_id = users_id_seq (cur d), username = uname,
              password_hash = Some (bcrypt_hash password),
              role = (case body_role req of None \<Rightarrow> ''user''
                      | Some r \<Rightarrow> if r = [] then ''user'' else r)\<rparr>"
  shows "run (register_token bcrypt_hash jwt_sign req) None d =
           (res_json 200 (JObj [(''token'', JStr (jwt_sign
               \<lparr>userId = user_id u, token_username = Some uname, token_role = role u\<rparr>)),
              (''user'', user_json u)]),
            d\<lparr>cur := insert_user u (cur d)\<rparr>)
       \<and> run (register_plain bcrypt_hash req) None d =
           (res_json 200 (user_json u), d\<lparr>cur := insert_user u (cur d)\<rparr>)"
  using assms
  by (simp add: register_token_def register_plain_def run_simps or_default_def)

theorem register_takes_role_from_body_witness:
  "authorization ((request_of None [])
      \<lparr>body_username := Some ''eve'', body_password := Some ''pw'', body_role := Some ''admin''\<rparr>) = None
   \<and> run (register_token hash_example sign_example ((request_of None [])
      \<lparr>body_username := Some ''eve'', body_password := Some ''pw'', body_role := Some ''admin''\<rparr>))
       None staff_db =
       (res_json 200 (JObj [(''token'', JStr ''token of admin''),
          (''user'', JObj [(''id'', JNum 41), (''username'', JStr ''eve''), (''role'', JStr ''admin'')])]),
        staff_db\<lparr>cur := insert_user
          \<lparr>user_id = 41, username = ''eve'', password_hash = Some ''#pw'', role = ''admin''\<rparr>
          (cur staff_db)\<rparr>)"
proof -
  let ?req = "(request_of None [])
      \<lparr>body_username := Some ''eve'', body_password := Some ''pw'', body_role := Some ''admin''\<rparr>"
  let ?u = "\<lparr>user_id = users_id_seq (cur staff_db), username = ''eve'',
              password_hash = Some (hash_example ''pw''),
              role = (case body_role ?req of None \<Rightarrow> ''user''
                      | Some r \<Rightarrow> if r = [] then ''user'' else r)\<rparr>"
  have a: "body_username ?req = Some ''eve''" "''eve'' \<noteq> []"
    and b: "body_password ?req = Some ''pw''" "''pw'' \<noteq> []"
    by simp_all
  from register_takes_role_from_body [OF a b, of ?u staff_db hash_example sign_example]
  show ?thesis
    by (simp add: request_of_def staff_db_def empty_tables_def hash_example_def sign_example_def
        user_json_def)
qed

text \<open>
  C10 as stated fails for a body whose role is the empty string: the role field is present
  and the account is created with \<^verbatim>\<open>'user'\<close>, not with the string supplied.
\<close>

theorem register_empty_role_becomes_user:
  "body_role ((request_of None [])
      \<lparr>body_username := Some ''eve'', body_password := Some ''pw'', body_role := Some []\<rparr>) = Some []
   \<and> map role (users (cur (snd (run (register_plain hash_example ((request_of None [])
        \<lparr>body_username := Some ''eve'', body_password := Some ''pw'', body_role := Some []\<rparr>))
        None fresh_post_db)))) = [''user'']"
  by (simp add: register_plain_def run_simps or_default_def example_defs)

end
